theory Spec2Isabelle
  imports Main "HOL-Library.Sublist"
begin

section \<open>Slash-separated paths: Go's \<open>path.Clean\<close> and \<open>path.Join\<close>\<close>

text \<open>
  \<open>Provision\<close> builds its target with \<open>path.Join\<close> of the Go standard library.
  Strings are byte sequences, as in Go. \<open>Clean\<close> keeps an output buffer \<open>out\<close>
  (the first \<open>out.w\<close> bytes of Go's \<open>lazybuf\<close>), the index \<open>dotdot\<close> below which
  a \<open>..\<close> element may not backtrack, and the unread rest of the input.
\<close>

abbreviation slash :: char where
  "slash \<equiv> CHR ''/''"

abbreviation dot :: char where
  "dot \<equiv> CHR ''.''"

abbreviation dash :: char where
  "dash \<equiv> CHR ''-''"

text \<open>
  The inner loop of the \<open>..\<close> case, entered after \<open>out.w--\<close>:
  \<open>for out.w > dotdot && out.index(out.w) != '/' { out.w-- }\<close>.
\<close>

function unwind :: "string \<Rightarrow> nat \<Rightarrow> nat \<Rightarrow> nat" where
  "unwind buf dotdot w =
     (if w > dotdot \<and> buf ! w \<noteq> slash then unwind buf dotdot (w - 1) else w)"
  by pat_completeness auto
termination
  by (relation "measure (\<lambda>(buf, dotdot, w). w)") auto

declare unwind.simps [simp del]

function cleanLoop :: "bool \<Rightarrow> string \<Rightarrow> nat \<Rightarrow> string \<Rightarrow> string" where
  "cleanLoop rooted out dotdot [] = out"
| "cleanLoop rooted out dotdot (c # cs) =
     (if c = slash then
        \<comment> \<open>empty path element\<close>
        cleanLoop rooted out dotdot cs
      else if c = dot \<and> (cs = [] \<or> hd cs = slash) then
        \<comment> \<open>. element\<close>
        cleanLoop rooted out dotdot cs
      else if c = dot \<and> hd cs = dot \<and> (tl cs = [] \<or> hd (tl cs) = slash) then
        \<comment> \<open>.. element: remove to last /\<close>
        (if length out > dotdot then
           \<comment> \<open>can backtrack\<close>
           cleanLoop rooted (take (unwind out dotdot (length out - 1)) out) dotdot (tl cs)
         else if \<not> rooted then
           \<comment> \<open>cannot backtrack, but not rooted, so append .. element\<close>
           (let out' = (if length out > 0 then out @ [slash] else out) @ [dot, dot]
            in cleanLoop rooted out' (length out') (tl cs))
         else cleanLoop rooted out dotdot (tl cs))
      else
        \<comment> \<open>real path element: add slash if needed, copy element\<close>
        (let out' = (if rooted \<and> length out \<noteq> 1 \<or> \<not> rooted \<and> length out \<noteq> 0
                     then out @ [slash] else out)
         in cleanLoop rooted (out' @ takeWhile (\<lambda>x. x \<noteq> slash) (c # cs)) dotdot
              (dropWhile (\<lambda>x. x \<noteq> slash) (c # cs))))"
  by pat_completeness auto
termination
proof (relation "measure (\<lambda>(rooted, out, dotdot, rest). length rest)")
  show "wf (measure (\<lambda>(rooted, out, dotdot, rest). length rest))"
    by simp
next
  fix rooted :: bool and out :: string and dotdot :: nat and c :: char and cs :: string
  and x :: string
  assume "c \<noteq> slash"
  then have "length (dropWhile (\<lambda>x. x \<noteq> slash) (c # cs)) \<le> length cs"
    by (simp add: length_dropWhile_le)
  then show "((rooted, x @ takeWhile (\<lambda>x. x \<noteq> slash) (c # cs), dotdot,
               dropWhile (\<lambda>x. x \<noteq> slash) (c # cs)),
              rooted, out, dotdot, c # cs)
             \<in> measure (\<lambda>(rooted, out, dotdot, rest). length rest)"
    by simp
qed (auto simp: less_Suc_eq_le intro: le_trans [OF diff_le_self])

definition Clean :: "string \<Rightarrow> string" where
  "Clean path =
     (if path = [] then ''.''
      else
        (let rooted = (hd path = slash);
             out = (if rooted then cleanLoop True [slash] 1 (tl path)
                    else cleanLoop False [] 0 path)
         in \<comment> \<open>turn empty string into a single dot\<close>
            if out = [] then ''.'' else out))"

text \<open>
  \<open>Join\<close> ignores empty elements, puts a slash between the others and cleans the result;
  when every element is empty the result is the empty string.
\<close>

fun joinBuf :: "string \<Rightarrow> string list \<Rightarrow> string" where
  "joinBuf buf [] = buf"
| "joinBuf buf (e # elem) =
     (if buf \<noteq> [] \<or> e \<noteq> []
      then joinBuf ((if buf \<noteq> [] then buf @ [slash] else buf) @ e) elem
      else joinBuf buf elem)"

definition Join :: "string list \<Rightarrow> string" where
  "Join elem =
     (if sum_list (map length elem) = 0 then []
      else Clean (joinBuf [] elem))"


section \<open>Kubernetes objects and the provisioner\<close>

text \<open>
  Only the fields the provisioner reads or writes are kept. Indexing a Go map at a key it
  does not hold yields the zero value of the element type; \<open>os.Getenv\<close> likewise yields
  the empty string for an unset variable.
\<close>

definition index :: "('k \<rightharpoonup> string) \<Rightarrow> 'k \<Rightarrow> string" where
  "index m k = (case m k of None \<Rightarrow> [] | Some v \<Rightarrow> v)"

definition Getenv :: "(string \<rightharpoonup> string) \<Rightarrow> string \<Rightarrow> string" where
  "Getenv env key = index env key"

text \<open>A \<open>resource.Quantity\<close> is kept as its number of bytes; its zero value is \<open>0\<close>.\<close>

type_synonym Quantity = int

record PersistentVolumeClaim =
  Namespace :: string
  Name :: string
  Labels :: "string \<rightharpoonup> string"
  AccessModes :: "string list"
  Requests :: "string \<rightharpoonup> Quantity"

text \<open>\<open>ReclaimPolicy\<close> is a pointer in the storage class: \<open>None\<close> is Go's \<open>nil\<close>.\<close>

record StorageClass =
  ReclaimPolicy :: "string option"

text \<open>
  Modelled from the spec: \<open>controller.ProvisionOptions\<close> is declared in the controller
  package of the library, outside the two program files. \<open>Provision\<close> reads three of
  its fields: the storage class, the volume name assigned by the driver, and the claim.
\<close>

record ProvisionOptions =
  StorageClass :: StorageClass
  PVName :: string
  PVC :: PersistentVolumeClaim

record PersistentVolume =
  PV_Name :: string
  Annotations :: "string \<rightharpoonup> string"
  PersistentVolumeReclaimPolicy :: string
  PV_AccessModes :: "string list"
  Capacity :: "string \<rightharpoonup> Quantity"
  HostPath :: string

abbreviation ResourceStorage :: string where
  "ResourceStorage \<equiv> ''storage''"

abbreviation zk :: string where "zk \<equiv> ''zk''"
abbreviation mongodb :: string where "mongodb \<equiv> ''mongodb''"
abbreviation es :: string where "es \<equiv> ''es''"
abbreviation kafka :: string where "kafka \<equiv> ''kafka''"

record pvDirs =
  zkDir :: string
  esDir :: string
  mongodbDir :: string
  kafkaDir :: string

record hostPathProvisioner = pvDirs +
  identity :: string

text \<open>
  The repository holds two copies of the program. \<open>Example\<close> is
  \<^verbatim>\<open>examples/hostpath-provisioner/hostpath-provisioner.go\<close>: it tolerates an unset
  \<^verbatim>\<open>ES_PV_DIR\<close> and creates directories with mode 0755. \<open>Part000\<close> is the other copy:
  it requires all four directories and creates directories with mode 0777. They agree
  everywhere else.
\<close>

datatype variant = Example | Part000

datatype fatal = Fatal string

text \<open>The loop over the four variable names; \<open>klog.Fatalf\<close> ends the process.\<close>

fun readDirs ::
  "variant \<Rightarrow> (string \<rightharpoonup> string) \<Rightarrow> string list \<Rightarrow> (string \<rightharpoonup> string)
     \<Rightarrow> fatal + (string \<rightharpoonup> string)" where
  "readDirs v env [] dirsCache = Inr dirsCache"
| "readDirs v env (dir # dirs) dirsCache =
     (let val = Getenv env dir in
      if val = [] \<and> (case v of Example \<Rightarrow> dir \<noteq> ''ES_PV_DIR'' | Part000 \<Rightarrow> True)
      then Inl (Fatal (''env variable '' @ (case v of Example \<Rightarrow> dir | Part000 \<Rightarrow> val)
                       @ '' must be set so that this provisioner knows where to place its data''))
      else readDirs v env dirs (dirsCache(dir \<mapsto> val)))"

definition NewHostPathProvisioner ::
  "variant \<Rightarrow> (string \<rightharpoonup> string) \<Rightarrow> fatal + hostPathProvisioner" where
  "NewHostPathProvisioner v env =
     (let nodeName = Getenv env ''NODE_NAME'' in
      if nodeName = [] then
        Inl (Fatal ''env variable NODE_NAME must be set so that this provisioner can identify itself'')
      else
        (case readDirs v env [''ZK_PV_DIR'', ''MONGODB_PV_DIR'', ''ES_PV_DIR'', ''KAFKA_PV_DIR'']
                Map.empty of
           Inl f \<Rightarrow> Inl f
         | Inr dirsCache \<Rightarrow>
             Inr \<lparr> zkDir = index dirsCache ''ZK_PV_DIR'',
                   esDir = (case v of Example \<Rightarrow> [] | Part000 \<Rightarrow> index dirsCache ''ES_PV_DIR''),
                   mongodbDir = index dirsCache ''MONGODB_PV_DIR'',
                   kafkaDir = index dirsCache ''KAFKA_PV_DIR'',
                   identity = nodeName \<rparr>))"

text \<open>Lines 91 to 107 of \<open>Provision\<close>: the category switch and the target path.\<close>

definition pvDir :: "hostPathProvisioner \<Rightarrow> (string \<rightharpoonup> string) \<Rightarrow> string" where
  "pvDir p labels =
     (let app = index labels ''app'' in
      if app = zk then zkDir p
      else if app = mongodb then mongodbDir p
      else if app = es then esDir p
      else if app = kafka then kafkaDir p
      else ''/tmp/nirmata-hostpath-provisioner'')"

definition provisionPath :: "hostPathProvisioner \<Rightarrow> ProvisionOptions \<Rightarrow> string" where
  "provisionPath p options =
     Join [pvDir p (Labels (PVC options)),
           Namespace (PVC options) @ ''-'' @ Name (PVC options) @ ''-'' @ PVName options]"


section \<open>The host filesystem\<close>

text \<open>
  \<open>os.MkdirAll\<close> and \<open>os.RemoveAll\<close> act on the node's filesystem, which is the state
  threaded through \<open>Provision\<close> and \<open>Delete\<close>. The filesystem is a table from absolute
  paths, given as lists of names with \<open>[]\<close> for the root, to nodes; a directory carries
  its permission bits. There are no symbolic links, a path string is resolved lexically
  against the working directory, the process owns every node and is not the superuser,
  and a name longer than \<open>nameMax\<close> is refused by the filesystem. Of the permission
  bits only the owner's write bit is consulted: every directory is taken to be readable
  and searchable. Lexical resolution agrees with the kernel on the cleaned paths that
  \<open>Provision\<close> builds and writes into the \<open>hostpath\<close> annotation.
\<close>

datatype errno = ENOENT | ENOTDIR | EACCES | ENAMETOOLONG | EINVAL | EEXIST | EBUSY

datatype node = File | Dir nat

record filesys =
  cwd :: "string list"
  entries :: "(string list \<times> node) list"
  nameMax :: nat

text \<open>
  Modelled from the spec: \<open>controller.IgnoredError\<close> is declared in the controller
  package of the library, outside the two program files. It is the ignorable error kind:
  it carries a reason and is told apart from every other error by the driver. The other
  outcomes are Go's \<open>errors.New\<close> values, the \<open>os.PathError\<close> of a failed filesystem
  call, and the run-time panic of dereferencing \<open>nil\<close>.
\<close>

datatype error =
    ErrorString string
  | IgnoredError string
  | PathError string "string list" errno
  | NilPointerDereference

fun elements :: "string \<Rightarrow> string list" where
  "elements [] = [[]]"
| "elements (c # cs) =
     (if c = slash then [] # elements cs
      else (case elements cs of [] \<Rightarrow> [[c]] | e # rest \<Rightarrow> (c # e) # rest))"

definition enter :: "string list \<Rightarrow> string \<Rightarrow> string list" where
  "enter cur c =
     (if c = [] \<or> c = ''.'' then cur
      else if c = ''..'' then butlast cur
      else cur @ [c])"

definition resolve :: "filesys \<Rightarrow> string \<Rightarrow> string list" where
  "resolve fs path =
     foldl enter (if path \<noteq> [] \<and> hd path = slash then [] else cwd fs) (elements path)"

text \<open>
  Looking a path up walks it from the root: every directory on the way must exist and
  be a directory.
\<close>

fun lookupFrom :: "filesys \<Rightarrow> string list \<Rightarrow> string list \<Rightarrow> errno + node" where
  "lookupFrom fs cur [] =
     (case map_of (entries fs) cur of None \<Rightarrow> Inl ENOENT | Some n \<Rightarrow> Inr n)"
| "lookupFrom fs cur (c # cs) =
     (case map_of (entries fs) cur of
        None \<Rightarrow> Inl ENOENT
      | Some File \<Rightarrow> Inl ENOTDIR
      | Some (Dir perm) \<Rightarrow>
          if length c > nameMax fs then Inl ENAMETOOLONG
          else lookupFrom fs (cur @ [c]) cs)"

definition Stat :: "filesys \<Rightarrow> string list \<Rightarrow> errno + node" where
  "Stat fs q = lookupFrom fs [] q"

text \<open>The owner's write bit, octal 0200.\<close>

definition writable :: "nat \<Rightarrow> bool" where
  "writable perm \<longleftrightarrow> (perm div 128) mod 2 = 1"

text \<open>\<open>os.Mkdir\<close>: one level; the parent must be a writable directory.\<close>

definition Mkdir :: "filesys \<Rightarrow> string list \<Rightarrow> nat \<Rightarrow> error option \<times> filesys" where
  "Mkdir fs q perm =
     (if q = [] then (Some (PathError ''mkdir'' q EEXIST), fs)
      else
        (case Stat fs (butlast q) of
           Inl e \<Rightarrow> (Some (PathError ''mkdir'' q e), fs)
         | Inr File \<Rightarrow> (Some (PathError ''mkdir'' q ENOTDIR), fs)
         | Inr (Dir pperm) \<Rightarrow>
             if length (last q) > nameMax fs then (Some (PathError ''mkdir'' q ENAMETOOLONG), fs)
             else
               (case map_of (entries fs) q of
                  Some n \<Rightarrow> (Some (PathError ''mkdir'' q EEXIST), fs)
                | None \<Rightarrow>
                    if \<not> writable pperm then (Some (PathError ''mkdir'' q EACCES), fs)
                    else (None, fs\<lparr>entries := (q, Dir perm) # entries fs\<rparr>))))"

text \<open>
  \<open>os.MkdirAll\<close>: if the path is already a directory nothing happens; if it is a file
  the call fails; otherwise the parent is made first and then the path itself, and a
  failure of that last step is forgiven when the path is a directory after all. What an
  unsuccessful call has created stays.
\<close>

function mkdirAll :: "filesys \<Rightarrow> string list \<Rightarrow> nat \<Rightarrow> error option \<times> filesys" where
  "mkdirAll fs q perm =
     (case Stat fs q of
        Inr (Dir m) \<Rightarrow> (None, fs)
      | Inr File \<Rightarrow> (Some (PathError ''mkdir'' q ENOTDIR), fs)
      | Inl e \<Rightarrow>
          (case (if q = [] then (None, fs) else mkdirAll fs (butlast q) perm) of
             (Some err, fs') \<Rightarrow> (Some err, fs')
           | (None, fs') \<Rightarrow>
               (case Mkdir fs' q perm of
                  (None, fs'') \<Rightarrow> (None, fs'')
                | (Some err, fs'') \<Rightarrow>
                    (case Stat fs'' q of
                       Inr (Dir m) \<Rightarrow> (None, fs'')
                     | _ \<Rightarrow> (Some err, fs'')))))"
  by pat_completeness auto
termination
  by (relation "measure (\<lambda>(fs, q, perm). length q)") auto

declare mkdirAll.simps [simp del]

definition MkdirAll :: "filesys \<Rightarrow> string \<Rightarrow> nat \<Rightarrow> error option \<times> filesys" where
  "MkdirAll fs path perm =
     (if path = [] then (Some (PathError ''mkdir'' [] ENOENT), fs)
      else mkdirAll fs (resolve fs path) perm)"

text \<open>
  \<open>os.RemoveAll\<close>: the empty path and a path that does not exist are no error; a path
  ending in a dot is refused. Otherwise everything below the path is removed that can be:
  a node stays when its parent directory is not writable (the root always stays), and so
  does every directory above such a node. The first node that could not be removed is
  reported.
\<close>

definition endsWithDot :: "string \<Rightarrow> bool" where
  "endsWithDot path \<longleftrightarrow>
     path = ''.'' \<or> (length path \<ge> 2 \<and> last path = dot \<and> path ! (length path - 2) = slash)"

definition pinned :: "filesys \<Rightarrow> string list \<Rightarrow> bool" where
  "pinned fs r \<longleftrightarrow>
     r = [] \<or>
     (case map_of (entries fs) (butlast r) of
        Some (Dir perm) \<Rightarrow> \<not> writable perm
      | _ \<Rightarrow> False)"

definition stuck :: "filesys \<Rightarrow> string list \<Rightarrow> string list list" where
  "stuck fs q = filter (\<lambda>r. prefix q r \<and> pinned fs r) (map fst (entries fs))"

definition RemoveAll :: "filesys \<Rightarrow> string \<Rightarrow> error option \<times> filesys" where
  "RemoveAll fs path =
     (if path = [] then (None, fs)
      else if endsWithDot path then (Some (PathError ''RemoveAll'' (resolve fs path) EINVAL), fs)
      else
        (let q = resolve fs path in
         case Stat fs q of
           Inl e \<Rightarrow> if e = ENOENT then (None, fs) else (Some (PathError ''unlinkat'' q e), fs)
         | Inr n \<Rightarrow>
             (let kept = stuck fs q;
                  fs' = fs\<lparr>entries :=
                          filter (\<lambda>(r, n). \<not> prefix q r \<or> (\<exists>s \<in> set kept. prefix r s))
                            (entries fs)\<rparr>
              in case kept of
                   [] \<Rightarrow> (None, fs')
                 | s # _ \<Rightarrow>
                     (Some (PathError ''unlinkat'' s (if s = [] then EBUSY else EACCES)), fs'))))"

section \<open>Provision and Delete\<close>

text \<open>The mode handed to \<open>os.MkdirAll\<close>: octal 0755 in one copy, 0777 in the other.\<close>

definition dirPerm :: "variant \<Rightarrow> nat" where
  "dirPerm v = (case v of Example \<Rightarrow> 493 | Part000 \<Rightarrow> 511)"

text \<open>
  \<open>Provision\<close> creates the directory and then builds the volume. The reclaim policy is
  dereferenced while the volume is built, after the directory exists. The informational
  log line is left out.
\<close>

definition Provision ::
  "variant \<Rightarrow> hostPathProvisioner \<Rightarrow> ProvisionOptions \<Rightarrow> filesys
     \<Rightarrow> (error + PersistentVolume) \<times> filesys" where
  "Provision v p options fs =
     (let path = provisionPath p options in
      case MkdirAll fs path (dirPerm v) of
        (Some err, fs') \<Rightarrow> (Inl err, fs')
      | (None, fs') \<Rightarrow>
          (case ReclaimPolicy (StorageClass options) of
             None \<Rightarrow> (Inl NilPointerDereference, fs')
           | Some policy \<Rightarrow>
               (Inr \<lparr> PV_Name = PVName options,
                      Annotations = [''hostPathProvisionerIdentity'' \<mapsto> identity p,
                                     ''hostpath'' \<mapsto> path],
                      PersistentVolumeReclaimPolicy = policy,
                      PV_AccessModes = AccessModes (PVC options),
                      Capacity = [ResourceStorage \<mapsto>
                                    (case Requests (PVC options) ResourceStorage of
                                       None \<Rightarrow> 0 | Some quantity \<Rightarrow> quantity)],
                      HostPath = path \<rparr>,
                fs')))"

text \<open>\<open>Delete\<close> is the same in both copies.\<close>

definition Delete ::
  "hostPathProvisioner \<Rightarrow> PersistentVolume \<Rightarrow> filesys \<Rightarrow> error option \<times> filesys" where
  "Delete p volume fs =
     (case Annotations volume ''hostPathProvisionerIdentity'' of
        None \<Rightarrow> (Some (ErrorString ''identity annotation not found on PV''), fs)
      | Some ann \<Rightarrow>
          if ann \<noteq> identity p then
            (Some (IgnoredError ''identity annotation on PV does not match ours''), fs)
          else
            (case Annotations volume ''hostpath'' of
               None \<Rightarrow> (Some (ErrorString ''hostpath annotation not found on PV''), fs)
             | Some path \<Rightarrow>
                 (case RemoveAll fs path of
                    (Some err, fs') \<Rightarrow> (Some err, fs')
                  | (None, fs') \<Rightarrow> (None, fs'))))"


section \<open>The target path in the words of the specification\<close>

text \<open>
  The specification describes the category lookup as a map from the recognised \<open>app\<close>
  labels to base directories that is populated once at startup from the configuration,
  with a fixed fallback directory, and the target as that directory joined with
  namespace, claim name and volume name separated by dashes. \<open>spec_path\<close> follows these
  words: the directory of a category is the value of its configuration variable. It is
  compared with \<open>provisionPath\<close> of the instance the constructor builds.
\<close>

definition spec_categories :: "(string \<rightharpoonup> string) \<Rightarrow> (string \<rightharpoonup> string)" where
  "spec_categories env =
     [zk \<mapsto> Getenv env ''ZK_PV_DIR'', mongodb \<mapsto> Getenv env ''MONGODB_PV_DIR'',
      es \<mapsto> Getenv env ''ES_PV_DIR'', kafka \<mapsto> Getenv env ''KAFKA_PV_DIR'']"

definition spec_fallback :: string where
  "spec_fallback = ''/tmp/nirmata-hostpath-provisioner''"

definition spec_path :: "(string \<rightharpoonup> string) \<Rightarrow> ProvisionOptions \<Rightarrow> string" where
  "spec_path env options =
     Join [(case Labels (PVC options) ''app'' of
              None \<Rightarrow> spec_fallback
            | Some app \<Rightarrow>
                (case spec_categories env app of None \<Rightarrow> spec_fallback | Some dir \<Rightarrow> dir)),
           Namespace (PVC options) @ ''-'' @ Name (PVC options) @ ''-'' @ PVName options]"

section \<open>Example inputs\<close>

text \<open>
  The end-to-end example of the specification: the instance \<open>node-a\<close>, a claim with a
  one gibibyte request, and a disk that holds only the root directory.
\<close>

definition nodeA :: hostPathProvisioner where
  "nodeA = \<lparr> zkDir = ''/var/data/zk'', esDir = ''/var/data/es'',
             mongodbDir = ''/var/data/mongodb'', kafkaDir = ''/var/data/kafka'',
             identity = ''node-a'' \<rparr>"

definition appLabel :: "string \<Rightarrow> (string \<rightharpoonup> string)" where
  "appLabel app = [''app'' \<mapsto> app]"

definition claimFor :: "string \<Rightarrow> string \<Rightarrow> (string \<rightharpoonup> string) \<Rightarrow> string \<Rightarrow> ProvisionOptions" where
  "claimFor ns name labels pv =
     \<lparr> StorageClass = \<lparr> ReclaimPolicy = Some ''Delete'' \<rparr>,
       PVName = pv,
       PVC = \<lparr> Namespace = ns, Name = name, Labels = labels,
               AccessModes = [''ReadWriteOnce''],
               Requests = [ResourceStorage \<mapsto> 1073741824] \<rparr> \<rparr>"

definition volumeAt :: "string \<Rightarrow> string \<Rightarrow> PersistentVolume" where
  "volumeAt owner path =
     \<lparr> PV_Name = ''pv-1'',
       Annotations = [''hostPathProvisionerIdentity'' \<mapsto> owner, ''hostpath'' \<mapsto> path],
       PersistentVolumeReclaimPolicy = ''Delete'',
       PV_AccessModes = [''ReadWriteOnce''],
       Capacity = [ResourceStorage \<mapsto> 1073741824],
       HostPath = path \<rparr>"

definition diskOf :: "nat \<Rightarrow> (string list \<times> node) list \<Rightarrow> filesys" where
  "diskOf limit tab = \<lparr> cwd = [], entries = tab, nameMax = limit \<rparr>"

text \<open>
  The environment of \<^verbatim>\<open>manifest/deployment.yaml\<close>, on a node called \<open>node-a\<close>.
\<close>

definition deploymentEnv :: "string \<rightharpoonup> string" where
  "deploymentEnv = [''LEADER_ELECTION'' \<mapsto> ''flase'', ''ZK_PV_DIR'' \<mapsto> ''/var/nirmata/zk'',
                    ''MONGODB_PV_DIR'' \<mapsto> ''/var/nirmata/mongodb'',
                    ''ES_PV_DIR'' \<mapsto> ''/var/nirmata/elasticsearch'',
                    ''KAFKA_PV_DIR'' \<mapsto> ''/var/nirmata/kafka'', ''NODE_NAME'' \<mapsto> ''node-a'']"

definition exampleEnv :: "string \<rightharpoonup> string" where
  "exampleEnv = [''NODE_NAME'' \<mapsto> ''node-a'', ''ZK_PV_DIR'' \<mapsto> ''/var/data/zk'',
                 ''MONGODB_PV_DIR'' \<mapsto> ''/var/data/mongodb'', ''ES_PV_DIR'' \<mapsto> ''/var/data/es'',
                 ''KAFKA_PV_DIR'' \<mapsto> ''/var/data/kafka'']"

section \<open>Properties of cleaning and joining\<close>

lemma unwind_le: "unwind buf dotdot w \<le> w"
  by (induction buf dotdot w rule: unwind.induct) (subst unwind.simps, auto)

lemma unwind_ge: "dotdot \<le> w \<Longrightarrow> dotdot \<le> unwind buf dotdot w"
proof (induction buf dotdot w rule: unwind.induct)
  case (1 buf dotdot w)
  show ?case
  proof (cases "w > dotdot \<and> buf ! w \<noteq> slash")
    case True
    then have "dotdot \<le> w - 1" by arith
    with True have "dotdot \<le> unwind buf dotdot (w - 1)"
      using "1.IH" by blast
    with True show ?thesis
      by (subst unwind.simps) simp
  next
    case False
    with "1.prems" show ?thesis
      by (subst unwind.simps) auto
  qed
qed

text \<open>A final element without slash that is neither empty, \<open>.\<close> nor \<open>..\<close> is copied as it is.\<close>

lemma cleanLoop_element:
  assumes "slash \<notin> set key" and "key \<noteq> []" and "key \<noteq> ''.''" and "key \<noteq> ''..''"
  shows "cleanLoop rooted out dotdot key =
           (if rooted \<and> length out \<noteq> 1 \<or> \<not> rooted \<and> length out \<noteq> 0
            then out @ [slash] else out) @ key"
proof -
  from assms(2) obtain c cs where key: "key = c # cs"
    by (cases key) auto
  have c: "c \<noteq> slash"
    using assms(1) key by auto
  have tw: "takeWhile (\<lambda>x. x \<noteq> slash) (c # cs) = c # cs"
    using assms(1) key by (intro takeWhile_eq_all_conv [THEN iffD2]) auto
  have dw: "dropWhile (\<lambda>x. x \<noteq> slash) (c # cs) = []"
    using assms(1) key by (intro dropWhile_eq_Nil_conv [THEN iffD2]) auto
  have one: "\<not> (c = dot \<and> (cs = [] \<or> hd cs = slash))"
    using assms(1,3) key by (cases cs) auto
  have two: "\<not> (c = dot \<and> hd cs = dot \<and> (tl cs = [] \<or> hd (tl cs) = slash))"
  proof
    assume a: "c = dot \<and> hd cs = dot \<and> (tl cs = [] \<or> hd (tl cs) = slash)"
    show False
    proof (cases cs)
      case Nil
      with a one show False by simp
    next
      case (Cons d ds)
      with a assms(1,4) key show False by (cases ds) auto
    qed
  qed
  show ?thesis
    unfolding key
    apply (subst cleanLoop.simps)
    apply (simp only: c one two if_False Let_def tw dw cleanLoop.simps(1))
    done
qed


lemma cleanLoop_prefix:
  assumes key: "slash \<notin> set key" "key \<noteq> []" "key \<noteq> ''.''" "key \<noteq> ''..''"
  shows "pre = [] \<or> last pre = slash \<Longrightarrow>
         rooted \<longrightarrow> dotdot = 1 \<and> out \<noteq> [] \<and> hd out = slash \<Longrightarrow>
         \<exists>d. cleanLoop rooted out dotdot (pre @ key) = d @ key \<and> (d = [] \<or> last d = slash)"
proof (induction "length pre" arbitrary: pre out dotdot rule: less_induct)
  case less
  show ?case
  proof (cases pre)
    case Nil
    have "cleanLoop rooted out dotdot key =
           (if rooted \<and> length out \<noteq> 1 \<or> \<not> rooted \<and> length out \<noteq> 0
            then out @ [slash] else out) @ key"
      using key by (rule cleanLoop_element)
    moreover have "rooted \<Longrightarrow> length out = 1 \<Longrightarrow> out = [slash]"
      using less.prems(2) by (cases out) auto
    ultimately show ?thesis
      using Nil by (cases rooted) auto
  next
    case (Cons c cs)
    have lastcs: "cs = [] \<or> last cs = slash"
      using less.prems(1) Cons by (auto split: if_splits)
    have csne: "c \<noteq> slash \<Longrightarrow> cs \<noteq> []"
      using less.prems(1) Cons by auto
    show ?thesis
    proof (cases "c = slash")
      case True
      have "length cs < length pre" using Cons by simp
      from less.hyps [OF this lastcs less.prems(2)]
      have "\<exists>d. cleanLoop rooted out dotdot (cs @ key) = d @ key \<and> (d = [] \<or> last d = slash)" .
      then show ?thesis
        using True Cons by simp
    next
      case notslash: False
      then have ne: "cs \<noteq> []" by (rule csne)
      then have hdcs: "hd (cs @ key) = hd cs" by simp
      show ?thesis
      proof (cases "c = dot \<and> hd cs = slash")
        case True
        have "length cs < length pre" using Cons by simp
        from less.hyps [OF this lastcs less.prems(2)]
        have "\<exists>d. cleanLoop rooted out dotdot (cs @ key) = d @ key \<and> (d = [] \<or> last d = slash)" .
        then show ?thesis
          using True Cons ne by simp
      next
        case notdot: False
        show ?thesis
        proof (cases "c = dot \<and> hd cs = dot \<and> (tl cs = [] \<or> hd (tl cs) = slash)")
          case True
          then have tlne: "tl cs \<noteq> []"
            using lastcs ne by (cases cs) auto
          have lasttl: "tl cs = [] \<or> last (tl cs) = slash"
            using lastcs ne tlne by (cases cs) auto
          have len: "length (tl cs) < length pre"
            using Cons ne by (cases cs) auto
          have tlapp: "tl (cs @ key) = tl cs @ key" "hd (tl (cs @ key)) = hd (tl cs)"
            using ne tlne by auto
          have step: "cleanLoop rooted out dotdot (pre @ key) =
              (if length out > dotdot then
                 cleanLoop rooted (take (unwind out dotdot (length out - 1)) out) dotdot (tl cs @ key)
               else if \<not> rooted then
                 cleanLoop rooted ((if length out > 0 then out @ [slash] else out) @ [dot, dot])
                   (length ((if length out > 0 then out @ [slash] else out) @ [dot, dot])) (tl cs @ key)
               else cleanLoop rooted out dotdot (tl cs @ key))"
            using True notslash notdot ne tlne Cons tlapp by (simp add: Let_def)
          show ?thesis
          proof (cases "length out > dotdot")
            case gt: True
            let ?w = "unwind out dotdot (length out - 1)"
            have "dotdot \<le> ?w" using gt by (intro unwind_ge) simp
            then have "rooted \<longrightarrow> dotdot = 1 \<and> take ?w out \<noteq> [] \<and> hd (take ?w out) = slash"
              using less.prems(2) by (cases out) (auto simp: take_Cons')
            from less.hyps [OF len lasttl this] show ?thesis
              using step gt by simp
          next
            case ngt: False
            show ?thesis
            proof (cases rooted)
              case True
              from less.hyps [OF len lasttl less.prems(2)] show ?thesis
                using step ngt True by simp
            next
              case False
              then have "rooted \<longrightarrow> length ((if length out > 0 then out @ [slash] else out) @ [dot, dot]) = 1
                    \<and> (if length out > 0 then out @ [slash] else out) @ [dot, dot] \<noteq> []
                    \<and> hd ((if length out > 0 then out @ [slash] else out) @ [dot, dot]) = slash"
                by simp
              from less.hyps [OF len lasttl this] show ?thesis
                using step ngt False by simp
            qed
          qed
        next
          case real: False
          have ex: "\<exists>x\<in>set (c # cs). \<not> x \<noteq> slash"
            using lastcs ne last_in_set [of cs] by auto
          let ?rest = "dropWhile (\<lambda>x. x \<noteq> slash) (c # cs)"
          have dw: "dropWhile (\<lambda>x. x \<noteq> slash) (c # cs @ key) = ?rest @ key"
            using dropWhile_append1 [of _ "c # cs" "\<lambda>x. x \<noteq> slash" key] ex by auto
          have tw: "takeWhile (\<lambda>x. x \<noteq> slash) (c # cs @ key) = takeWhile (\<lambda>x. x \<noteq> slash) (c # cs)"
            using takeWhile_append1 [of _ "c # cs" "\<lambda>x. x \<noteq> slash" key] ex by auto
          have restne: "?rest \<noteq> []"
            using ex by (simp only: dropWhile_eq_Nil_conv) blast
          have lastrest: "?rest = [] \<or> last ?rest = slash"
            using restne lastcs ne
            by (metis takeWhile_dropWhile_id last_appendR last_ConsR)
          have len: "length ?rest < length pre"
            unfolding Cons using notslash by (simp add: less_Suc_eq_le length_dropWhile_le)
          have c2: "\<not> (c = dot \<and> (cs @ key = [] \<or> hd (cs @ key) = slash))"
            using notdot ne hdcs by simp
          have c3: "\<not> (c = dot \<and> hd (cs @ key) = dot \<and>
                      (tl (cs @ key) = [] \<or> hd (tl (cs @ key)) = slash))"
            using real ne key(2) by (cases cs; cases "tl cs") auto
          let ?out = "(if rooted \<and> length out \<noteq> 1 \<or> \<not> rooted \<and> length out \<noteq> 0
                     then out @ [slash] else out) @ takeWhile (\<lambda>x. x \<noteq> slash) (c # cs)"
          have step: "cleanLoop rooted out dotdot (pre @ key) = cleanLoop rooted ?out dotdot (?rest @ key)"
            unfolding Cons append_Cons
            by (subst cleanLoop.simps) (simp only: notslash c2 c3 if_False Let_def dw tw)
          have inv: "rooted \<longrightarrow> dotdot = 1 \<and> ?out \<noteq> [] \<and> hd ?out = slash"
            using less.prems(2) by auto
          from less.hyps [OF len lastrest inv] show ?thesis
            using step by simp
        qed
      qed
    qed
  qed
qed


lemma Clean_nonempty: "Clean path \<noteq> []"
  by (simp add: Clean_def Let_def)

lemma Clean_last:
  assumes key: "slash \<notin> set key" "key \<noteq> []" "key \<noteq> ''.''" "key \<noteq> ''..''"
    and pre: "pre = [] \<or> last pre = slash"
  shows "\<exists>d. Clean (pre @ key) = d @ key \<and> (d = [] \<or> last d = slash)"
proof (cases "hd (pre @ key) = slash")
  case True
  then have ne: "pre \<noteq> []"
    using key(1,2) by (cases key) auto
  then have tl: "tl (pre @ key) = tl pre @ key"
    by simp
  have "tl pre = [] \<or> last (tl pre) = slash"
    using pre ne by (cases pre) (auto split: if_splits)
  from cleanLoop_prefix [OF key this, of True 1 "[slash]"]
  obtain d where d: "cleanLoop True [slash] 1 (tl pre @ key) = d @ key" "d = [] \<or> last d = slash"
    by auto
  then show ?thesis
    using True key(2) tl by (auto simp: Clean_def Let_def)
next
  case False
  from cleanLoop_prefix [OF key pre, of False 0 "[]"]
  obtain d where d: "cleanLoop False [] 0 (pre @ key) = d @ key" "d = [] \<or> last d = slash"
    by auto
  then show ?thesis
    using False key(2) by (auto simp: Clean_def Let_def)
qed

lemma Join_last:
  assumes key: "slash \<notin> set key" "key \<noteq> []" "key \<noteq> ''.''" "key \<noteq> ''..''"
  shows "\<exists>d. Join [dir, key] = d @ key \<and> (d = [] \<or> last d = slash)"
proof (cases "dir = []")
  case True
  with Clean_last [OF key, of "[]"] key(2) show ?thesis
    by (simp add: Join_def)
next
  case False
  with Clean_last [OF key, of "dir @ [slash]"] key(2) show ?thesis
    by (simp add: Join_def)
qed

lemma Join_empty_dir:
  assumes key: "slash \<notin> set key" "key \<noteq> []" "key \<noteq> ''.''" "key \<noteq> ''..''"
  shows "Join [[], key] = key"
proof -
  have "hd key \<noteq> slash"
    using key(1,2) by (cases key) auto
  then show ?thesis
    using key(2) cleanLoop_element [OF key, of False "[]" 0]
    by (simp add: Join_def Clean_def Let_def)
qed

lemma last_element_unique:
  assumes "d1 @ k1 = d2 @ k2"
    and "slash \<notin> set k1" and "slash \<notin> set k2"
    and "d1 = [] \<or> last d1 = slash" and "d2 = [] \<or> last d2 = slash"
  shows "k1 = k2"
proof -
  have base: "takeWhile (\<lambda>x. x \<noteq> slash) (rev (d @ k)) = rev k"
    if "slash \<notin> set k" "d = [] \<or> last d = slash" for d k :: string
  proof (cases "d = []")
    case True
    with that show ?thesis by (auto simp: takeWhile_eq_all_conv)
  next
    case False
    with that have "hd (rev d) = slash" "rev d \<noteq> []"
      by (simp_all add: hd_rev)
    then have "takeWhile (\<lambda>x. x \<noteq> slash) (rev d) = []"
      by (cases "rev d") auto
    moreover have "takeWhile (\<lambda>x. x \<noteq> slash) (rev k @ rev d)
                     = rev k @ takeWhile (\<lambda>x. x \<noteq> slash) (rev d)"
      using that(1) by (intro takeWhile_append2) auto
    ultimately show ?thesis
      by simp
  qed
  have "rev k1 = takeWhile (\<lambda>x. x \<noteq> slash) (rev (d1 @ k1))"
    using base [OF assms(2,4)] by simp
  also have "\<dots> = rev k2"
    using base [OF assms(3,5)] assms(1) by simp
  finally show ?thesis by simp
qed

lemma split_first:
  "x \<notin> set a \<Longrightarrow> x \<notin> set b \<Longrightarrow> a @ x # r = b @ x # s \<Longrightarrow> a = b \<and> r = s"
proof (induction a arbitrary: b)
  case Nil
  then show ?case by (cases b) auto
next
  case (Cons y a)
  then show ?case by (cases b) auto
qed

lemma key_injective:
  assumes "dash \<notin> set ns1" "dash \<notin> set ns2" "dash \<notin> set n1" "dash \<notin> set n2"
    and "ns1 @ ''-'' @ n1 @ ''-'' @ v1 = ns2 @ ''-'' @ n2 @ ''-'' @ v2"
  shows "ns1 = ns2 \<and> n1 = n2 \<and> v1 = v2"
proof -
  from assms(5) have "ns1 @ dash # (n1 @ dash # v1) = ns2 @ dash # (n2 @ dash # v2)"
    by simp
  from split_first [OF assms(1,2) this] have "ns1 = ns2" "n1 @ dash # v1 = n2 @ dash # v2"
    by simp_all
  with split_first [OF assms(3,4)] show ?thesis by simp
qed

lemma key_element:
  assumes "slash \<notin> set ns" "slash \<notin> set n" "slash \<notin> set v"
  shows "slash \<notin> set (ns @ ''-'' @ n @ ''-'' @ v)"
    and "ns @ ''-'' @ n @ ''-'' @ v \<noteq> []"
    and "ns @ ''-'' @ n @ ''-'' @ v \<noteq> ''.''"
    and "ns @ ''-'' @ n @ ''-'' @ v \<noteq> ''..''"
  using assms by (auto simp: append_eq_Cons_conv Cons_eq_append_conv)

section \<open>Properties of the filesystem operations\<close>

lemma lookupFrom_snoc:
  "lookupFrom fs cur (cs @ [c]) =
     (case lookupFrom fs cur cs of
        Inl e \<Rightarrow> Inl e
      | Inr File \<Rightarrow> Inl ENOTDIR
      | Inr (Dir perm) \<Rightarrow>
          if length c > nameMax fs then Inl ENAMETOOLONG
          else (case map_of (entries fs) (cur @ cs @ [c]) of
                  None \<Rightarrow> Inl ENOENT | Some n \<Rightarrow> Inr n))"
  by (induction cs arbitrary: cur) (auto split: option.splits node.splits)

lemma lookupFrom_cons_entry:
  "length cur + length cs < length q \<Longrightarrow>
   lookupFrom (fs\<lparr>entries := (q, n) # entries fs\<rparr>) cur cs = lookupFrom fs cur cs"
  by (induction cs arbitrary: cur) (auto split: option.splits node.splits)

lemma Mkdir_cwd: "Mkdir fs q perm = (r, fs') \<Longrightarrow> cwd fs' = cwd fs \<and> nameMax fs' = nameMax fs"
  by (auto simp: Mkdir_def split: if_splits sum.splits node.splits option.splits)

lemma Mkdir_Stat:
  assumes "Mkdir fs q perm = (None, fs')"
  shows "Stat fs' q = Inr (Dir perm)"
proof -
  from assms obtain pperm where q: "q \<noteq> []"
    and par: "Stat fs (butlast q) = Inr (Dir pperm)"
    and len: "\<not> length (last q) > nameMax fs"
    and fs': "fs' = fs\<lparr>entries := (q, Dir perm) # entries fs\<rparr>"
    by (auto simp: Mkdir_def split: if_splits sum.splits node.splits option.splits)
  have "lookupFrom fs' [] (butlast q) = lookupFrom fs [] (butlast q)"
    unfolding fs' using q by (intro lookupFrom_cons_entry) simp
  then have "lookupFrom fs' [] (butlast q) = Inr (Dir pperm)"
    using par by (simp add: Stat_def)
  moreover have "lookupFrom fs' [] q = lookupFrom fs' [] (butlast q @ [last q])"
    using q by simp
  ultimately show ?thesis
    using len q unfolding Stat_def by (simp only: lookupFrom_snoc) (simp add: fs')
qed

lemma mkdirAll_cwd:
  "mkdirAll fs q perm = (r, fs') \<Longrightarrow> cwd fs' = cwd fs \<and> nameMax fs' = nameMax fs"
proof (induction fs q perm arbitrary: r fs' rule: mkdirAll.induct)
  case (1 fs q perm)
  show ?case
  proof (cases "Stat fs q")
    case (Inr n)
    with "1.prems" show ?thesis
      by (subst (asm) mkdirAll.simps) (auto split: node.splits)
  next
    case (Inl e)
    obtain r1 fs1 where par: "(if q = [] then (None, fs) else mkdirAll fs (butlast q) perm) = (r1, fs1)"
      by (cases "if q = [] then (None, fs) else mkdirAll fs (butlast q) perm") auto
    have fs1: "cwd fs1 = cwd fs \<and> nameMax fs1 = nameMax fs"
    proof (cases "q = []")
      case True
      with par show ?thesis by simp
    next
      case False
      with par have "mkdirAll fs (butlast q) perm = (r1, fs1)" by simp
      from "1.IH" [OF Inl False this] show ?thesis .
    qed
    obtain r2 fs2 where mk: "Mkdir fs1 q perm = (r2, fs2)"
      by (cases "Mkdir fs1 q perm") auto
    from Mkdir_cwd [OF mk] have fs2: "cwd fs2 = cwd fs1 \<and> nameMax fs2 = nameMax fs1" .
    from "1.prems" have "fs' = fs1 \<or> fs' = fs2"
      apply (subst (asm) mkdirAll.simps)
      apply (simp only: Inl sum.case par mk prod.case)
      apply (auto split: option.splits sum.splits node.splits)
      done
    with fs1 fs2 show ?thesis by auto
  qed
qed

lemma mkdirAll_Stat:
  assumes "mkdirAll fs q perm = (None, fs')"
  shows "\<exists>m. Stat fs' q = Inr (Dir m)"
proof (cases "Stat fs q")
  case (Inr n)
  with assms show ?thesis
    by (subst (asm) mkdirAll.simps) (auto split: node.splits)
next
  case (Inl e)
  obtain r1 fs1 where par: "(if q = [] then (None, fs) else mkdirAll fs (butlast q) perm) = (r1, fs1)"
    by (cases "if q = [] then (None, fs) else mkdirAll fs (butlast q) perm") auto
  obtain r2 fs2 where mk: "Mkdir fs1 q perm = (r2, fs2)"
    by (cases "Mkdir fs1 q perm") auto
  from assms have res: "r1 = None \<and> fs' = fs2 \<and> (r2 = None \<or> (\<exists>m. Stat fs2 q = Inr (Dir m)))"
    apply (subst (asm) mkdirAll.simps)
    apply (simp only: Inl sum.case par mk prod.case)
    apply (auto split: option.splits sum.splits node.splits)
    done
  show ?thesis
  proof (cases r2)
    case None
    with mk res Mkdir_Stat [of fs1 q perm fs2] show ?thesis by auto
  next
    case (Some a)
    with res show ?thesis by auto
  qed
qed

lemma mkdirAll_again:
  assumes "mkdirAll fs q perm = (None, fs')"
  shows "mkdirAll fs' q perm' = (None, fs')"
proof -
  from mkdirAll_Stat [OF assms] obtain m where "Stat fs' q = Inr (Dir m)" ..
  then show ?thesis
    by (subst mkdirAll.simps) simp
qed

lemma MkdirAll_again:
  assumes "MkdirAll fs path perm = (None, fs')"
  shows "MkdirAll fs' path perm' = (None, fs')"
proof -
  from assms have ne: "path \<noteq> []" and mk: "mkdirAll fs (resolve fs path) perm = (None, fs')"
    by (auto simp: MkdirAll_def split: if_splits)
  from mkdirAll_cwd [OF mk] have "resolve fs' path = resolve fs path"
    by (simp add: resolve_def)
  with mkdirAll_again [OF mk] ne show ?thesis
    by (simp add: MkdirAll_def)
qed

lemma MkdirAll_existing:
  assumes "path \<noteq> []" and "Stat fs (resolve fs path) = Inr (Dir m)"
  shows "MkdirAll fs path perm = (None, fs)"
  using assms by (simp add: MkdirAll_def mkdirAll.simps)

lemma map_of_filter_key:
  "map_of (filter (\<lambda>(r, n). P r) xs) k = (if P k then map_of xs k else None)"
  by (induction xs) auto

lemma lookupFrom_removed:
  "lookupFrom fs cur cs = Inr n \<Longrightarrow>
   lookupFrom (fs\<lparr>entries := filter (\<lambda>(r, n). \<not> prefix (cur @ cs) r) (entries fs)\<rparr>) cur cs
     = Inl ENOENT"
proof (induction cs arbitrary: cur)
  case Nil
  then show ?case by (simp add: map_of_filter_key)
next
  case (Cons c cs)
  from Cons.prems obtain perm where dir: "map_of (entries fs) cur = Some (Dir perm)"
    and len: "\<not> length c > nameMax fs"
    and rest: "lookupFrom fs (cur @ [c]) cs = Inr n"
    by (auto split: option.splits node.splits if_splits)
  from Cons.IH [OF rest] show ?case
    using dir len by (simp add: map_of_filter_key)
qed

lemma RemoveAll_cases:
  assumes "RemoveAll fs path = (None, fs')"
  shows "fs' = fs \<and> (path = [] \<or> \<not> endsWithDot path \<and> Stat fs (resolve fs path) = Inl ENOENT)
       \<or> (\<exists>n. path \<noteq> [] \<and> \<not> endsWithDot path \<and> Stat fs (resolve fs path) = Inr n \<and>
            fs' = fs\<lparr>entries := filter (\<lambda>(r, n). \<not> prefix (resolve fs path) r) (entries fs)\<rparr>)"
  using assms
  by (auto simp: RemoveAll_def Let_def split: if_splits sum.splits list.splits)

lemma RemoveAll_again:
  assumes "RemoveAll fs path = (None, fs')"
  shows "RemoveAll fs' path = (None, fs')"
proof -
  from RemoveAll_cases [OF assms] show ?thesis
  proof (elim disjE conjE exE)
    assume "fs' = fs" "path = []"
    then show ?thesis by (simp add: RemoveAll_def)
  next
    assume "fs' = fs" "\<not> endsWithDot path" "Stat fs (resolve fs path) = Inl ENOENT"
    then show ?thesis by (simp add: RemoveAll_def)
  next
    fix n
    assume ne: "path \<noteq> []" and nd: "\<not> endsWithDot path"
      and st: "Stat fs (resolve fs path) = Inr n"
      and fs': "fs' = fs\<lparr>entries := filter (\<lambda>(r, n). \<not> prefix (resolve fs path) r) (entries fs)\<rparr>"
    have res: "resolve fs' path = resolve fs path"
      by (simp add: fs' resolve_def)
    have "Stat fs' (resolve fs path) = Inl ENOENT"
      using lookupFrom_removed [of fs "[]" "resolve fs path" n] st
      by (simp add: Stat_def fs')
    with ne nd res show ?thesis by (simp add: RemoveAll_def)
  qed
qed

lemma RemoveAll_absent:
  "\<not> endsWithDot path \<Longrightarrow> Stat fs (resolve fs path) = Inl ENOENT \<Longrightarrow> RemoveAll fs path = (None, fs)"
  by (simp add: RemoveAll_def)

lemma provisionPath_nonempty: "provisionPath p options \<noteq> []"
  by (simp add: provisionPath_def Join_def Clean_nonempty)

lemma Mkdir_error: "Mkdir fs q perm = (Some err, fs') \<Longrightarrow> \<exists>e. err = PathError ''mkdir'' q e"
  by (auto simp: Mkdir_def split: if_splits sum.splits node.splits option.splits)

lemma Mkdir_entries: "Mkdir fs q perm = (r, fs') \<Longrightarrow> \<exists>new. entries fs' = new @ entries fs"
  by (auto simp: Mkdir_def split: if_splits sum.splits node.splits option.splits)

lemma mkdirAll_unfold:
  assumes "Stat fs q = Inl e"
    and "(if q = [] then (None, fs) else mkdirAll fs (butlast q) perm) = (r1, fs1)"
    and "Mkdir fs1 q perm = (r2, fs2)"
  shows "mkdirAll fs q perm =
           (case r1 of
              Some err \<Rightarrow> (Some err, fs1)
            | None \<Rightarrow>
                (case r2 of
                   None \<Rightarrow> (None, fs2)
                 | Some err \<Rightarrow>
                     (case Stat fs2 q of Inr (Dir m) \<Rightarrow> (None, fs2) | _ \<Rightarrow> (Some err, fs2))))"
  apply (subst mkdirAll.simps)
  apply (simp only: assms sum.case prod.case)
  done

lemma mkdirAll_error:
  "mkdirAll fs q perm = (Some err, fs') \<Longrightarrow> \<exists>q' e. err = PathError ''mkdir'' q' e"
proof (induction fs q perm arbitrary: err fs' rule: mkdirAll.induct)
  case (1 fs q perm)
  show ?case
  proof (cases "Stat fs q")
    case (Inr n)
    with "1.prems" show ?thesis
      by (subst (asm) mkdirAll.simps) (auto split: node.splits)
  next
    case (Inl e)
    obtain r1 fs1 where par: "(if q = [] then (None, fs) else mkdirAll fs (butlast q) perm) = (r1, fs1)"
      by (cases "if q = [] then (None, fs) else mkdirAll fs (butlast q) perm") auto
    obtain r2 fs2 where mk: "Mkdir fs1 q perm = (r2, fs2)"
      by (cases "Mkdir fs1 q perm") auto
    from "1.prems" have res: "r1 = Some err \<or> r2 = Some err"
      unfolding mkdirAll_unfold [OF Inl par mk]
      by (auto split: option.splits sum.splits node.splits)
    show ?thesis
    proof (cases "r1 = Some err")
      case True
      with par have "q \<noteq> []" by (auto split: if_splits)
      with par True have "mkdirAll fs (butlast q) perm = (Some err, fs1)" by simp
      from "1.IH" [OF Inl \<open>q \<noteq> []\<close> this] show ?thesis .
    next
      case False
      with res mk Mkdir_error [of fs1 q perm err fs2] show ?thesis by auto
    qed
  qed
qed

lemma mkdirAll_entries:
  "mkdirAll fs q perm = (r, fs') \<Longrightarrow> \<exists>new. entries fs' = new @ entries fs"
proof (induction fs q perm arbitrary: r fs' rule: mkdirAll.induct)
  case (1 fs q perm)
  show ?case
  proof (cases "Stat fs q")
    case (Inr n)
    with "1.prems" show ?thesis
      by (subst (asm) mkdirAll.simps) (auto split: node.splits)
  next
    case (Inl e)
    obtain r1 fs1 where par: "(if q = [] then (None, fs) else mkdirAll fs (butlast q) perm) = (r1, fs1)"
      by (cases "if q = [] then (None, fs) else mkdirAll fs (butlast q) perm") auto
    obtain r2 fs2 where mk: "Mkdir fs1 q perm = (r2, fs2)"
      by (cases "Mkdir fs1 q perm") auto
    have fs1: "\<exists>new. entries fs1 = new @ entries fs"
    proof (cases "q = []")
      case True
      with par show ?thesis by simp
    next
      case False
      with par have "mkdirAll fs (butlast q) perm = (r1, fs1)" by simp
      from "1.IH" [OF Inl False this] show ?thesis .
    qed
    from Mkdir_entries [OF mk] fs1 have fs2: "\<exists>new. entries fs2 = new @ entries fs"
      by auto
    from "1.prems" have "fs' = fs1 \<or> fs' = fs2"
      unfolding mkdirAll_unfold [OF Inl par mk]
      by (auto split: option.splits sum.splits node.splits)
    with fs1 fs2 show ?thesis by auto
  qed
qed

lemma MkdirAll_error:
  "MkdirAll fs path perm = (Some err, fs') \<Longrightarrow> \<exists>q e. err = PathError ''mkdir'' q e"
  by (auto simp: MkdirAll_def split: if_splits dest: mkdirAll_error)

lemma MkdirAll_entries:
  "MkdirAll fs path perm = (r, fs') \<Longrightarrow> \<exists>new. entries fs' = new @ entries fs"
  by (auto simp: MkdirAll_def split: if_splits dest: mkdirAll_entries)

lemma MkdirAll_Stat:
  "MkdirAll fs path perm = (None, fs') \<Longrightarrow> \<exists>m. Stat fs' (resolve fs' path) = Inr (Dir m)"
proof -
  assume a: "MkdirAll fs path perm = (None, fs')"
  then have mk: "mkdirAll fs (resolve fs path) perm = (None, fs')"
    by (auto simp: MkdirAll_def split: if_splits)
  from mkdirAll_cwd [OF mk] have "resolve fs' path = resolve fs path"
    by (simp add: resolve_def)
  with mkdirAll_Stat [OF mk] show ?thesis by simp
qed

lemma Provision_success:
  assumes "Provision v p options fs = (Inr pv, fs')"
  shows "MkdirAll fs (provisionPath p options) (dirPerm v) = (None, fs')"
    and "ReclaimPolicy (StorageClass options) = Some (PersistentVolumeReclaimPolicy pv)"
    and "pv = \<lparr> PV_Name = PVName options,
                Annotations = [''hostPathProvisionerIdentity'' \<mapsto> identity p,
                               ''hostpath'' \<mapsto> provisionPath p options],
                PersistentVolumeReclaimPolicy = PersistentVolumeReclaimPolicy pv,
                PV_AccessModes = AccessModes (PVC options),
                Capacity = [ResourceStorage \<mapsto>
                              (case Requests (PVC options) ResourceStorage of
                                 None \<Rightarrow> 0 | Some quantity \<Rightarrow> quantity)],
                HostPath = provisionPath p options \<rparr>"
  using assms
  by (auto simp: Provision_def Let_def split: prod.splits option.splits)

lemmas path_eval =
  provisionPath_def pvDir_def index_def Join_def Clean_def Let_def unwind.simps
  claimFor_def appLabel_def nodeA_def

lemmas disk_eval =
  MkdirAll_def mkdirAll.simps Mkdir_def Stat_def resolve_def enter_def writable_def
  RemoveAll_def endsWithDot_def stuck_def pinned_def diskOf_def dirPerm_def Let_def

lemma Provision_example:
  "Provision Example nodeA (claimFor ''default'' ''pvc1'' (appLabel zk) ''pv-1'')
       (diskOf 255 [([], Dir 493)])
     = (Inr (volumeAt ''node-a'' ''/var/data/zk/default-pvc1-pv-1''),
        diskOf 255 [([''var'', ''data'', ''zk'', ''default-pvc1-pv-1''], Dir 493),
                    ([''var'', ''data'', ''zk''], Dir 493), ([''var'', ''data''], Dir 493),
                    ([''var''], Dir 493), ([], Dir 493)])"
  by (simp add: Provision_def path_eval disk_eval volumeAt_def)

lemma Part000_keeps_es:
  "NewHostPathProvisioner Part000 env = Inr p \<Longrightarrow> esDir p = Getenv env ''ES_PV_DIR'' \<and> esDir p \<noteq> []"
  by (auto simp: NewHostPathProvisioner_def Let_def Getenv_def index_def split: if_splits)

lemma Provision_nil_policy:
  "ReclaimPolicy (StorageClass options) = None \<Longrightarrow>
   MkdirAll fs (provisionPath p options) (dirPerm v) = (None, fs') \<Longrightarrow>
   Provision v p options fs = (Inl NilPointerDereference, fs')"
  by (simp add: Provision_def Let_def)

section \<open>The claims\<close>

subsection \<open>Target path\<close>

text \<open>
  Claim C1, as stated: two claim contexts that differ in namespace, in claim name or in
  volume name get distinct paths. The key is the plain concatenation of the three names
  with dashes, and names may contain dashes themselves. Namespace \<open>a-b\<close>, claim \<open>c\<close>,
  volume \<open>d-pv\<close> and namespace \<open>a\<close>, claim \<open>b-c-d\<close>, volume \<open>pv\<close> differ in all
  three names and have the same key \<open>a-b-c-d-pv\<close>: the second \<open>Provision\<close> finds the
  directory of the first and returns it again. A slash in a name is a second source of
  collisions, even between different keys, since \<open>path.Join\<close> cleans the joined path:
  the keys \<open>x-y-z\<close> and \<open>q-r-s/../x-y-z\<close> both lead to \<open>/var/data/zk/x-y-z\<close>.
\<close>

theorem path_uniqueness_counterexample:
  "Namespace (PVC (claimFor ''a-b'' ''c'' (appLabel zk) ''d-pv''))
     \<noteq> Namespace (PVC (claimFor ''a'' ''b-c-d'' (appLabel zk) ''pv''))
   \<and> Name (PVC (claimFor ''a-b'' ''c'' (appLabel zk) ''d-pv''))
     \<noteq> Name (PVC (claimFor ''a'' ''b-c-d'' (appLabel zk) ''pv''))
   \<and> PVName (claimFor ''a-b'' ''c'' (appLabel zk) ''d-pv'')
     \<noteq> PVName (claimFor ''a'' ''b-c-d'' (appLabel zk) ''pv'')
   \<and> provisionPath nodeA (claimFor ''a-b'' ''c'' (appLabel zk) ''d-pv'')
     = provisionPath nodeA (claimFor ''a'' ''b-c-d'' (appLabel zk) ''pv'')
   \<and> map_sum id HostPath
         (fst (Provision Example nodeA (claimFor ''a-b'' ''c'' (appLabel zk) ''d-pv'')
                 (diskOf 255 [([''var'', ''data'', ''zk''], Dir 493), ([''var'', ''data''], Dir 493),
                              ([''var''], Dir 493), ([], Dir 493)])))
     = Inr ''/var/data/zk/a-b-c-d-pv''
   \<and> snd (Provision Example nodeA (claimFor ''a-b'' ''c'' (appLabel zk) ''d-pv'')
            (diskOf 255 [([''var'', ''data'', ''zk''], Dir 493), ([''var'', ''data''], Dir 493),
                         ([''var''], Dir 493), ([], Dir 493)]))
     = diskOf 255 [([''var'', ''data'', ''zk'', ''a-b-c-d-pv''], Dir 493),
                   ([''var'', ''data'', ''zk''], Dir 493), ([''var'', ''data''], Dir 493),
                   ([''var''], Dir 493), ([], Dir 493)]
   \<and> map_sum id HostPath
         (fst (Provision Example nodeA (claimFor ''a'' ''b-c-d'' (appLabel zk) ''pv'')
                 (diskOf 255 [([''var'', ''data'', ''zk'', ''a-b-c-d-pv''], Dir 493),
                              ([''var'', ''data'', ''zk''], Dir 493), ([''var'', ''data''], Dir 493),
                              ([''var''], Dir 493), ([], Dir 493)])))
     = Inr ''/var/data/zk/a-b-c-d-pv''
   \<and> snd (Provision Example nodeA (claimFor ''a'' ''b-c-d'' (appLabel zk) ''pv'')
            (diskOf 255 [([''var'', ''data'', ''zk'', ''a-b-c-d-pv''], Dir 493),
                         ([''var'', ''data'', ''zk''], Dir 493), ([''var'', ''data''], Dir 493),
                         ([''var''], Dir 493), ([], Dir 493)]))
     = diskOf 255 [([''var'', ''data'', ''zk'', ''a-b-c-d-pv''], Dir 493),
                   ([''var'', ''data'', ''zk''], Dir 493), ([''var'', ''data''], Dir 493),
                   ([''var''], Dir 493), ([], Dir 493)]
   \<and> Namespace (PVC (claimFor ''x'' ''y'' (appLabel zk) ''z''))
     \<noteq> Namespace (PVC (claimFor ''q'' ''r'' (appLabel zk) ''s/../x-y-z''))
   \<and> Name (PVC (claimFor ''x'' ''y'' (appLabel zk) ''z''))
     \<noteq> Name (PVC (claimFor ''q'' ''r'' (appLabel zk) ''s/../x-y-z''))
   \<and> PVName (claimFor ''x'' ''y'' (appLabel zk) ''z'')
     \<noteq> PVName (claimFor ''q'' ''r'' (appLabel zk) ''s/../x-y-z'')
   \<and> ''x'' @ ''-'' @ ''y'' @ ''-'' @ ''z'' \<noteq> ''q'' @ ''-'' @ ''r'' @ ''-'' @ ''s/../x-y-z''
   \<and> provisionPath nodeA (claimFor ''x'' ''y'' (appLabel zk) ''z'') = ''/var/data/zk/x-y-z''
   \<and> provisionPath nodeA (claimFor ''q'' ''r'' (appLabel zk) ''s/../x-y-z'')
     = ''/var/data/zk/x-y-z''"
proof -
  have dashes:
    "Namespace (PVC (claimFor ''a-b'' ''c'' (appLabel zk) ''d-pv''))
         \<noteq> Namespace (PVC (claimFor ''a'' ''b-c-d'' (appLabel zk) ''pv''))
       \<and> Name (PVC (claimFor ''a-b'' ''c'' (appLabel zk) ''d-pv''))
         \<noteq> Name (PVC (claimFor ''a'' ''b-c-d'' (appLabel zk) ''pv''))
       \<and> PVName (claimFor ''a-b'' ''c'' (appLabel zk) ''d-pv'')
         \<noteq> PVName (claimFor ''a'' ''b-c-d'' (appLabel zk) ''pv'')
       \<and> provisionPath nodeA (claimFor ''a-b'' ''c'' (appLabel zk) ''d-pv'')
         = provisionPath nodeA (claimFor ''a'' ''b-c-d'' (appLabel zk) ''pv'')
       \<and> map_sum id HostPath
             (fst (Provision Example nodeA (claimFor ''a-b'' ''c'' (appLabel zk) ''d-pv'')
                     (diskOf 255 [([''var'', ''data'', ''zk''], Dir 493), ([''var'', ''data''], Dir 493),
                                  ([''var''], Dir 493), ([], Dir 493)])))
         = Inr ''/var/data/zk/a-b-c-d-pv''
       \<and> snd (Provision Example nodeA (claimFor ''a-b'' ''c'' (appLabel zk) ''d-pv'')
                (diskOf 255 [([''var'', ''data'', ''zk''], Dir 493), ([''var'', ''data''], Dir 493),
                             ([''var''], Dir 493), ([], Dir 493)]))
         = diskOf 255 [([''var'', ''data'', ''zk'', ''a-b-c-d-pv''], Dir 493),
                       ([''var'', ''data'', ''zk''], Dir 493), ([''var'', ''data''], Dir 493),
                       ([''var''], Dir 493), ([], Dir 493)]
       \<and> map_sum id HostPath
             (fst (Provision Example nodeA (claimFor ''a'' ''b-c-d'' (appLabel zk) ''pv'')
                     (diskOf 255 [([''var'', ''data'', ''zk'', ''a-b-c-d-pv''], Dir 493),
                                  ([''var'', ''data'', ''zk''], Dir 493), ([''var'', ''data''], Dir 493),
                                  ([''var''], Dir 493), ([], Dir 493)])))
         = Inr ''/var/data/zk/a-b-c-d-pv''
       \<and> snd (Provision Example nodeA (claimFor ''a'' ''b-c-d'' (appLabel zk) ''pv'')
                (diskOf 255 [([''var'', ''data'', ''zk'', ''a-b-c-d-pv''], Dir 493),
                             ([''var'', ''data'', ''zk''], Dir 493), ([''var'', ''data''], Dir 493),
                             ([''var''], Dir 493), ([], Dir 493)]))
         = diskOf 255 [([''var'', ''data'', ''zk'', ''a-b-c-d-pv''], Dir 493),
                       ([''var'', ''data'', ''zk''], Dir 493), ([''var'', ''data''], Dir 493),
                       ([''var''], Dir 493), ([], Dir 493)]"
    by (simp add: Provision_def path_eval disk_eval)
  have names:
    "Namespace (PVC (claimFor ''x'' ''y'' (appLabel zk) ''z''))
       \<noteq> Namespace (PVC (claimFor ''q'' ''r'' (appLabel zk) ''s/../x-y-z''))"
    "Name (PVC (claimFor ''x'' ''y'' (appLabel zk) ''z''))
       \<noteq> Name (PVC (claimFor ''q'' ''r'' (appLabel zk) ''s/../x-y-z''))"
    "PVName (claimFor ''x'' ''y'' (appLabel zk) ''z'')
       \<noteq> PVName (claimFor ''q'' ''r'' (appLabel zk) ''s/../x-y-z'')"
    "''x'' @ ''-'' @ ''y'' @ ''-'' @ ''z'' \<noteq> ''q'' @ ''-'' @ ''r'' @ ''-'' @ ''s/../x-y-z''"
    by (simp_all add: claimFor_def)
  have first: "provisionPath nodeA (claimFor ''x'' ''y'' (appLabel zk) ''z'') = ''/var/data/zk/x-y-z''"
    by (simp add: path_eval)
  have second: "provisionPath nodeA (claimFor ''q'' ''r'' (appLabel zk) ''s/../x-y-z'')
                  = ''/var/data/zk/x-y-z''"
    by code_simp
  from dashes names first second show ?thesis
    by blast
qed

text \<open>
  Claim C1, amended: for names without a slash, two claim contexts get distinct paths
  whenever their keys, namespace, claim name and volume name joined by dashes, differ as
  strings. The base directories play no role in this, since the key is the last element
  of the path. The condition cannot be relaxed: two claim contexts of one category with
  the same key get the same path.
\<close>

theorem path_uniqueness:
  assumes "slash \<notin> set (Namespace (PVC o1)) \<union> set (Name (PVC o1)) \<union> set (PVName o1)"
    and "slash \<notin> set (Namespace (PVC o2)) \<union> set (Name (PVC o2)) \<union> set (PVName o2)"
  shows "(Namespace (PVC o1) @ ''-'' @ Name (PVC o1) @ ''-'' @ PVName o1
            \<noteq> Namespace (PVC o2) @ ''-'' @ Name (PVC o2) @ ''-'' @ PVName o2
          \<longrightarrow> provisionPath p o1 \<noteq> provisionPath p o2)
       \<and> (Namespace (PVC o1) @ ''-'' @ Name (PVC o1) @ ''-'' @ PVName o1
            = Namespace (PVC o2) @ ''-'' @ Name (PVC o2) @ ''-'' @ PVName o2
          \<and> pvDir p (Labels (PVC o1)) = pvDir p (Labels (PVC o2))
          \<longrightarrow> provisionPath p o1 = provisionPath p o2)"
proof (intro conjI impI)
  let ?k1 = "Namespace (PVC o1) @ ''-'' @ Name (PVC o1) @ ''-'' @ PVName o1"
  let ?k2 = "Namespace (PVC o2) @ ''-'' @ Name (PVC o2) @ ''-'' @ PVName o2"
  assume differ: "?k1 \<noteq> ?k2"
  have s1: "slash \<notin> set (Namespace (PVC o1))" "slash \<notin> set (Name (PVC o1))" "slash \<notin> set (PVName o1)"
    using assms(1) by auto
  have s2: "slash \<notin> set (Namespace (PVC o2))" "slash \<notin> set (Name (PVC o2))" "slash \<notin> set (PVName o2)"
    using assms(2) by auto
  from Join_last [OF key_element [OF s1]]
  obtain d1 where d1: "provisionPath p o1 = d1 @ ?k1" "d1 = [] \<or> last d1 = slash"
    unfolding provisionPath_def by blast
  from Join_last [OF key_element [OF s2]]
  obtain d2 where d2: "provisionPath p o2 = d2 @ ?k2" "d2 = [] \<or> last d2 = slash"
    unfolding provisionPath_def by blast
  show "provisionPath p o1 \<noteq> provisionPath p o2"
  proof
    assume "provisionPath p o1 = provisionPath p o2"
    then have "d1 @ ?k1 = d2 @ ?k2"
      using d1(1) d2(1) by simp
    from last_element_unique [OF this key_element(1) [OF s1] key_element(1) [OF s2] d1(2) d2(2)]
    have "?k1 = ?k2" .
    with differ show False by blast
  qed
next
  assume "Namespace (PVC o1) @ ''-'' @ Name (PVC o1) @ ''-'' @ PVName o1
            = Namespace (PVC o2) @ ''-'' @ Name (PVC o2) @ ''-'' @ PVName o2
          \<and> pvDir p (Labels (PVC o1)) = pvDir p (Labels (PVC o2))"
  then show "provisionPath p o1 = provisionPath p o2"
    by (simp add: provisionPath_def)
qed

theorem path_uniqueness_witness:
  "slash \<notin> set ''kube-system'' \<union> set ''a'' \<union> set ''x''
   \<and> slash \<notin> set ''default'' \<union> set ''b'' \<union> set ''y''
   \<and> ''kube-system'' @ ''-'' @ ''a'' @ ''-'' @ ''x'' \<noteq> ''default'' @ ''-'' @ ''b'' @ ''-'' @ ''y''
   \<and> provisionPath nodeA (claimFor ''kube-system'' ''a'' (appLabel zk) ''x'')
       \<noteq> provisionPath nodeA (claimFor ''default'' ''b'' (appLabel zk) ''y'')
   \<and> slash \<notin> set ''a-b'' \<union> set ''c'' \<union> set ''d-pv''
   \<and> slash \<notin> set ''a'' \<union> set ''b-c-d'' \<union> set ''pv''
   \<and> ''a-b'' @ ''-'' @ ''c'' @ ''-'' @ ''d-pv'' = ''a'' @ ''-'' @ ''b-c-d'' @ ''-'' @ ''pv''
   \<and> pvDir nodeA (appLabel zk) = pvDir nodeA (appLabel zk)
   \<and> provisionPath nodeA (claimFor ''a-b'' ''c'' (appLabel zk) ''d-pv'')
       = provisionPath nodeA (claimFor ''a'' ''b-c-d'' (appLabel zk) ''pv'')"
proof -
  let ?c1 = "claimFor ''kube-system'' ''a'' (appLabel zk) ''x''"
  let ?c2 = "claimFor ''default'' ''b'' (appLabel zk) ''y''"
  let ?c3 = "claimFor ''a-b'' ''c'' (appLabel zk) ''d-pv''"
  let ?c4 = "claimFor ''a'' ''b-c-d'' (appLabel zk) ''pv''"
  have s1: "slash \<notin> set (Namespace (PVC ?c1)) \<union> set (Name (PVC ?c1)) \<union> set (PVName ?c1)"
    and s2: "slash \<notin> set (Namespace (PVC ?c2)) \<union> set (Name (PVC ?c2)) \<union> set (PVName ?c2)"
    and s3: "slash \<notin> set (Namespace (PVC ?c3)) \<union> set (Name (PVC ?c3)) \<union> set (PVName ?c3)"
    and s4: "slash \<notin> set (Namespace (PVC ?c4)) \<union> set (Name (PVC ?c4)) \<union> set (PVName ?c4)"
    by (simp_all add: claimFor_def)
  have k12: "Namespace (PVC ?c1) @ ''-'' @ Name (PVC ?c1) @ ''-'' @ PVName ?c1
               \<noteq> Namespace (PVC ?c2) @ ''-'' @ Name (PVC ?c2) @ ''-'' @ PVName ?c2"
    by (simp add: claimFor_def)
  have k34: "Namespace (PVC ?c3) @ ''-'' @ Name (PVC ?c3) @ ''-'' @ PVName ?c3
               = Namespace (PVC ?c4) @ ''-'' @ Name (PVC ?c4) @ ''-'' @ PVName ?c4
             \<and> pvDir nodeA (Labels (PVC ?c3)) = pvDir nodeA (Labels (PVC ?c4))"
    by (simp add: claimFor_def)
  from path_uniqueness [OF s1 s2, of nodeA, THEN conjunct1, THEN mp, OF k12]
  have one: "provisionPath nodeA ?c1 \<noteq> provisionPath nodeA ?c2" .
  from path_uniqueness [OF s3 s4, of nodeA, THEN conjunct2, THEN mp, OF k34]
  have two: "provisionPath nodeA ?c3 = provisionPath nodeA ?c4" .
  have rest: "slash \<notin> set ''kube-system'' \<union> set ''a'' \<union> set ''x''"
    "slash \<notin> set ''default'' \<union> set ''b'' \<union> set ''y''"
    "''kube-system'' @ ''-'' @ ''a'' @ ''-'' @ ''x'' \<noteq> ''default'' @ ''-'' @ ''b'' @ ''-'' @ ''y''"
    "slash \<notin> set ''a-b'' \<union> set ''c'' \<union> set ''d-pv''"
    "slash \<notin> set ''a'' \<union> set ''b-c-d'' \<union> set ''pv''"
    "''a-b'' @ ''-'' @ ''c'' @ ''-'' @ ''d-pv'' = ''a'' @ ''-'' @ ''b-c-d'' @ ''-'' @ ''pv''"
    by simp_all
  from one two rest show ?thesis by blast
qed

text \<open>
  The instance the constructor builds holds the configured directories, with one
  exception: the copy that tolerates an unset \<^verbatim>\<open>ES_PV_DIR\<close> drops the value of that
  variable. Everywhere else the path of \<open>Provision\<close> is the path of the specification.
\<close>

lemma constructor_dirs:
  assumes "NewHostPathProvisioner v env = Inr p"
  shows "zkDir p = Getenv env ''ZK_PV_DIR''"
    and "mongodbDir p = Getenv env ''MONGODB_PV_DIR''"
    and "kafkaDir p = Getenv env ''KAFKA_PV_DIR''"
    and "esDir p = (case v of Example \<Rightarrow> [] | Part000 \<Rightarrow> Getenv env ''ES_PV_DIR'')"
    and "identity p = Getenv env ''NODE_NAME''"
  using assms
  by (auto simp: NewHostPathProvisioner_def Let_def Getenv_def index_def
           split: if_splits variant.splits)

lemma provisionPath_configured:
  assumes "NewHostPathProvisioner v env = Inr p"
    and "v = Part000 \<or> Labels (PVC options) ''app'' \<noteq> Some es"
  shows "provisionPath p options = spec_path env options"
proof -
  note dirs = constructor_dirs [OF assms(1)]
  have "pvDir p (Labels (PVC options)) =
     (case Labels (PVC options) ''app'' of
        None \<Rightarrow> spec_fallback
      | Some app \<Rightarrow> (case spec_categories env app of None \<Rightarrow> spec_fallback | Some dir \<Rightarrow> dir))"
    using assms(2) dirs(1-4)
    by (auto simp: pvDir_def index_def spec_fallback_def spec_categories_def Let_def
             split: option.splits variant.splits)
  then show ?thesis
    by (simp add: provisionPath_def spec_path_def)
qed

lemma provisionPath_examples:
  "NewHostPathProvisioner Part000 exampleEnv = Inr nodeA"
  "spec_path exampleEnv (claimFor ''default'' ''pvc1'' (appLabel zk) ''pv-1'')
     = ''/var/data/zk/default-pvc1-pv-1''"
  "spec_path exampleEnv (claimFor ''default'' ''pvc1'' (appLabel ''redis'') ''pv-1'')
     = ''/tmp/nirmata-hostpath-provisioner/default-pvc1-pv-1''"
  "spec_path exampleEnv (claimFor ''default'' ''pvc1'' Map.empty ''pv-1'')
     = ''/tmp/nirmata-hostpath-provisioner/default-pvc1-pv-1''"
  by (simp_all add: NewHostPathProvisioner_def Getenv_def exampleEnv_def nodeA_def
        spec_path_def spec_categories_def spec_fallback_def index_def Join_def Clean_def
        Let_def claimFor_def appLabel_def)

text \<open>
  Claim C2: the target path is the category's base directory joined with namespace,
  claim name and volume name separated by dashes, where the labels \<open>zk\<close>, \<open>mongodb\<close>,
  \<open>es\<close> and \<open>kafka\<close> select the directory configured for them and any other or missing
  label selects the fallback directory. The copy that requires all four directories does
  this, and the other copy does it for every label but \<open>es\<close>. That copy reads
  \<^verbatim>\<open>ES_PV_DIR\<close> and leaves it out of the instance it builds: with the environment of
  the deployment manifest, a claim labelled \<open>app=es\<close> in namespace \<open>default\<close> with name
  \<open>pvc1\<close> and volume \<open>pv-1\<close> is provisioned at \<open>default-pvc1-pv-1\<close> below the working
  directory, while the configured directory joined with the key is
  \<open>/var/nirmata/elasticsearch/default-pvc1-pv-1\<close>, the path the other copy computes
  from the same environment.
\<close>

theorem provision_path_es_divergence:
  "NewHostPathProvisioner Example deploymentEnv
     = Inr \<lparr> zkDir = ''/var/nirmata/zk'', esDir = [], mongodbDir = ''/var/nirmata/mongodb'',
             kafkaDir = ''/var/nirmata/kafka'', identity = ''node-a'' \<rparr>
   \<and> map_sum id HostPath
         (fst (Provision Example
                 \<lparr> zkDir = ''/var/nirmata/zk'', esDir = [], mongodbDir = ''/var/nirmata/mongodb'',
                   kafkaDir = ''/var/nirmata/kafka'', identity = ''node-a'' \<rparr>
                 (claimFor ''default'' ''pvc1'' (appLabel es) ''pv-1'')
                 (diskOf 255 [([], Dir 493)])))
     = Inr ''default-pvc1-pv-1''
   \<and> snd (Provision Example
            \<lparr> zkDir = ''/var/nirmata/zk'', esDir = [], mongodbDir = ''/var/nirmata/mongodb'',
              kafkaDir = ''/var/nirmata/kafka'', identity = ''node-a'' \<rparr>
            (claimFor ''default'' ''pvc1'' (appLabel es) ''pv-1'')
            (diskOf 255 [([], Dir 493)]))
     = diskOf 255 [([''default-pvc1-pv-1''], Dir 493), ([], Dir 493)]
   \<and> spec_path deploymentEnv (claimFor ''default'' ''pvc1'' (appLabel es) ''pv-1'')
     = ''/var/nirmata/elasticsearch/default-pvc1-pv-1''
   \<and> NewHostPathProvisioner Part000 deploymentEnv
     = Inr \<lparr> zkDir = ''/var/nirmata/zk'', esDir = ''/var/nirmata/elasticsearch'',
             mongodbDir = ''/var/nirmata/mongodb'', kafkaDir = ''/var/nirmata/kafka'',
             identity = ''node-a'' \<rparr>
   \<and> provisionPath
         \<lparr> zkDir = ''/var/nirmata/zk'', esDir = ''/var/nirmata/elasticsearch'',
           mongodbDir = ''/var/nirmata/mongodb'', kafkaDir = ''/var/nirmata/kafka'',
           identity = ''node-a'' \<rparr>
         (claimFor ''default'' ''pvc1'' (appLabel es) ''pv-1'')
     = ''/var/nirmata/elasticsearch/default-pvc1-pv-1''"
  by (simp add: NewHostPathProvisioner_def Getenv_def deploymentEnv_def spec_path_def
        spec_categories_def spec_fallback_def Provision_def provisionPath_def pvDir_def
        index_def Join_def Clean_def Let_def claimFor_def appLabel_def disk_eval)

text \<open>
  Claim C3: in the copy that tolerates an unset \<^verbatim>\<open>ES_PV_DIR\<close>, the constructor does
  not store the value it read for it, whatever the environment holds. For a claim
  labelled \<open>app=es\<close> the base directory is therefore empty and the path is the key
  alone, a path relative to the working directory: \<open>path.Join\<close> drops the empty
  element and cleans the key, which leaves a key without slash as it is.
\<close>

theorem es_dir_dropped:
  assumes "NewHostPathProvisioner Example env = Inr p"
    and "Labels (PVC options) ''app'' = Some es"
  shows "esDir p = []
    \<and> pvDir p (Labels (PVC options)) = []
    \<and> provisionPath p options
        = Clean (Namespace (PVC options) @ ''-'' @ Name (PVC options) @ ''-'' @ PVName options)
    \<and> (slash \<notin> set (Namespace (PVC options)) \<union> set (Name (PVC options)) \<union> set (PVName options)
        \<longrightarrow> provisionPath p options
              = Namespace (PVC options) @ ''-'' @ Name (PVC options) @ ''-'' @ PVName options)"
proof -
  have e: "esDir p = []"
    using assms(1) by (auto simp: NewHostPathProvisioner_def Let_def split: if_splits sum.splits)
  then have d: "pvDir p (Labels (PVC options)) = []"
    using assms(2) by (simp add: pvDir_def index_def)
  then have c: "provisionPath p options
        = Clean (Namespace (PVC options) @ ''-'' @ Name (PVC options) @ ''-'' @ PVName options)"
    by (simp add: provisionPath_def Join_def)
  have "provisionPath p options
          = Namespace (PVC options) @ ''-'' @ Name (PVC options) @ ''-'' @ PVName options"
    if "slash \<notin> set (Namespace (PVC options)) \<union> set (Name (PVC options)) \<union> set (PVName options)"
  proof -
    from that have s: "slash \<notin> set (Namespace (PVC options))" "slash \<notin> set (Name (PVC options))"
      "slash \<notin> set (PVName options)"
      by auto
    from Join_empty_dir [OF key_element [OF s]] d show ?thesis
      by (simp add: provisionPath_def)
  qed
  with e d c show ?thesis by blast
qed

theorem es_dir_dropped_witness:
  "NewHostPathProvisioner Example exampleEnv = Inr (nodeA\<lparr>esDir := []\<rparr>)
   \<and> Getenv exampleEnv ''ES_PV_DIR'' = ''/var/data/es''
   \<and> provisionPath (nodeA\<lparr>esDir := []\<rparr>) (claimFor ''default'' ''pvc1'' (appLabel es) ''pv-1'')
       = ''default-pvc1-pv-1''"
proof -
  have new: "NewHostPathProvisioner Example exampleEnv = Inr (nodeA\<lparr>esDir := []\<rparr>)"
    by (simp add: NewHostPathProvisioner_def Getenv_def index_def exampleEnv_def nodeA_def)
  have lab: "Labels (PVC (claimFor ''default'' ''pvc1'' (appLabel es) ''pv-1'')) ''app'' = Some es"
    by (simp add: claimFor_def appLabel_def)
  have env: "Getenv exampleEnv ''ES_PV_DIR'' = ''/var/data/es''"
    by (simp add: Getenv_def index_def exampleEnv_def)
  have "provisionPath (nodeA\<lparr>esDir := []\<rparr>) (claimFor ''default'' ''pvc1'' (appLabel es) ''pv-1'')
          = ''default-pvc1-pv-1''"
    using es_dir_dropped [OF new lab, THEN conjunct2, THEN conjunct2, THEN conjunct2]
    by (simp add: claimFor_def)
  with new env show ?thesis by blast
qed

subsection \<open>Delete\<close>

text \<open>
  Claim C4: when the identity annotation (\<^verbatim>\<open>hostPathProvisionerIdentity\<close>) is present
  and differs from the identity of this instance, \<open>Delete\<close> returns the ignorable error
  and leaves the filesystem as it was.
\<close>

theorem delete_not_mine:
  assumes "Annotations volume ''hostPathProvisionerIdentity'' = Some ann"
    and "ann \<noteq> identity p"
  shows "Delete p volume fs
           = (Some (IgnoredError ''identity annotation on PV does not match ours''), fs)"
  using assms by (simp add: Delete_def)

theorem delete_not_mine_witness:
  "Annotations (volumeAt ''node-b'' ''/var/data/zk/default-pvc1-pv-1'') ''hostPathProvisionerIdentity''
     = Some ''node-b''
   \<and> ''node-b'' \<noteq> identity nodeA
   \<and> Delete nodeA (volumeAt ''node-b'' ''/var/data/zk/default-pvc1-pv-1'')
       (diskOf 255 [([''var'', ''data'', ''zk'', ''default-pvc1-pv-1''], Dir 493),
                    ([''var'', ''data'', ''zk''], Dir 493), ([''var'', ''data''], Dir 493),
                    ([''var''], Dir 493), ([], Dir 493)])
     = (Some (IgnoredError ''identity annotation on PV does not match ours''),
        diskOf 255 [([''var'', ''data'', ''zk'', ''default-pvc1-pv-1''], Dir 493),
                    ([''var'', ''data'', ''zk''], Dir 493), ([''var'', ''data''], Dir 493),
                    ([''var''], Dir 493), ([], Dir 493)])"
proof -
  have a: "Annotations (volumeAt ''node-b'' ''/var/data/zk/default-pvc1-pv-1'')
             ''hostPathProvisionerIdentity'' = Some ''node-b''"
    by (simp add: volumeAt_def)
  have b: "''node-b'' \<noteq> identity nodeA"
    by (simp add: nodeA_def)
  from delete_not_mine [OF a b] a b show ?thesis by blast
qed

text \<open>
  Claim C5: the identity annotation is examined first and the \<open>hostpath\<close> annotation
  second. Without the identity annotation \<open>Delete\<close> returns the missing-identity
  error, whatever else the volume holds; with the own identity but without \<open>hostpath\<close>
  it returns the missing-path error. Both leave the filesystem as it was, and the
  missing-identity error is not the ignorable error of a foreign identity.
\<close>

theorem delete_missing_metadata:
  "(Annotations volume ''hostPathProvisionerIdentity'' = None \<longrightarrow>
      Delete p volume fs = (Some (ErrorString ''identity annotation not found on PV''), fs))
   \<and> (Annotations volume ''hostPathProvisionerIdentity'' = Some (identity p)
        \<and> Annotations volume ''hostpath'' = None \<longrightarrow>
      Delete p volume fs = (Some (ErrorString ''hostpath annotation not found on PV''), fs))
   \<and> ErrorString ''identity annotation not found on PV''
        \<noteq> IgnoredError ''identity annotation on PV does not match ours''"
  by (simp add: Delete_def)

theorem delete_missing_metadata_witness:
  "Delete nodeA ((volumeAt ''node-a'' ''/var/x'')\<lparr>Annotations := Map.empty\<rparr>)
       (diskOf 255 [([''var'', ''x''], Dir 493), ([''var''], Dir 493), ([], Dir 493)])
     = (Some (ErrorString ''identity annotation not found on PV''),
        diskOf 255 [([''var'', ''x''], Dir 493), ([''var''], Dir 493), ([], Dir 493)])
   \<and> Delete nodeA ((volumeAt ''node-a'' ''/var/x'')\<lparr>Annotations := [''hostPathProvisionerIdentity'' \<mapsto> ''node-a'']\<rparr>)
       (diskOf 255 [([''var'', ''x''], Dir 493), ([''var''], Dir 493), ([], Dir 493)])
     = (Some (ErrorString ''hostpath annotation not found on PV''),
        diskOf 255 [([''var'', ''x''], Dir 493), ([''var''], Dir 493), ([], Dir 493)])"
proof -
  have a: "Annotations ((volumeAt ''node-a'' ''/var/x'')\<lparr>Annotations := Map.empty\<rparr>)
             ''hostPathProvisionerIdentity'' = None"
    by simp
  have b: "Annotations ((volumeAt ''node-a'' ''/var/x'')\<lparr>Annotations := [''hostPathProvisionerIdentity'' \<mapsto> ''node-a'']\<rparr>)
             ''hostPathProvisionerIdentity'' = Some (identity nodeA)
           \<and> Annotations ((volumeAt ''node-a'' ''/var/x'')\<lparr>Annotations := [''hostPathProvisionerIdentity'' \<mapsto> ''node-a'']\<rparr>)
             ''hostpath'' = None"
    by (simp add: nodeA_def)
  from a b
    delete_missing_metadata [of "(volumeAt ''node-a'' ''/var/x'')\<lparr>Annotations := Map.empty\<rparr>" nodeA
      "diskOf 255 [([''var'', ''x''], Dir 493), ([''var''], Dir 493), ([], Dir 493)]"]
    delete_missing_metadata [of "(volumeAt ''node-a'' ''/var/x'')\<lparr>Annotations := [''hostPathProvisionerIdentity'' \<mapsto> ''node-a'']\<rparr>" nodeA
      "diskOf 255 [([''var'', ''x''], Dir 493), ([''var''], Dir 493), ([], Dir 493)]"]
  show ?thesis by blast
qed

text \<open>
  Claim C6: \<open>Delete\<close> is idempotent. A second call after a successful one succeeds and
  changes nothing; for a volume of this instance whose path is absent \<open>Delete\<close>
  succeeds and changes nothing; and every error of the removal is returned as it is,
  together with whatever the removal left behind.
\<close>

theorem delete_idempotent:
  "(Delete p volume fs = (None, fs') \<longrightarrow> Delete p volume fs' = (None, fs'))
   \<and> (Annotations volume ''hostPathProvisionerIdentity'' = Some (identity p)
        \<and> Annotations volume ''hostpath'' = Some path
        \<and> \<not> endsWithDot path \<and> Stat fs (resolve fs path) = Inl ENOENT \<longrightarrow>
      Delete p volume fs = (None, fs))
   \<and> (Annotations volume ''hostPathProvisionerIdentity'' = Some (identity p)
        \<and> Annotations volume ''hostpath'' = Some path
        \<and> RemoveAll fs path = (Some err, fs'') \<longrightarrow>
      Delete p volume fs = (Some err, fs''))"
proof (intro conjI impI)
  assume d: "Delete p volume fs = (None, fs')"
  then obtain path' where own: "Annotations volume ''hostPathProvisionerIdentity'' = Some (identity p)"
    and hp: "Annotations volume ''hostpath'' = Some path'"
    and rm: "RemoveAll fs path' = (None, fs')"
    by (auto simp: Delete_def split: option.splits if_splits prod.splits)
  from RemoveAll_again [OF rm] own hp show "Delete p volume fs' = (None, fs')"
    by (simp add: Delete_def)
next
  assume "Annotations volume ''hostPathProvisionerIdentity'' = Some (identity p)
        \<and> Annotations volume ''hostpath'' = Some path
        \<and> \<not> endsWithDot path \<and> Stat fs (resolve fs path) = Inl ENOENT"
  then show "Delete p volume fs = (None, fs)"
    by (simp add: Delete_def RemoveAll_absent)
next
  assume "Annotations volume ''hostPathProvisionerIdentity'' = Some (identity p)
        \<and> Annotations volume ''hostpath'' = Some path
        \<and> RemoveAll fs path = (Some err, fs'')"
  then show "Delete p volume fs = (Some err, fs'')"
    by (simp add: Delete_def)
qed

theorem delete_idempotent_witness:
  "Delete nodeA (volumeAt ''node-a'' ''/var/data/zk/default-pvc1-pv-1'')
       (diskOf 255 [([''var'', ''data'', ''zk'', ''default-pvc1-pv-1''], Dir 493),
                    ([''var'', ''data'', ''zk''], Dir 493), ([''var'', ''data''], Dir 493),
                    ([''var''], Dir 493), ([], Dir 493)])
     = (None, diskOf 255 [([''var'', ''data'', ''zk''], Dir 493), ([''var'', ''data''], Dir 493),
                          ([''var''], Dir 493), ([], Dir 493)])
   \<and> Delete nodeA (volumeAt ''node-a'' ''/var/data/zk/default-pvc1-pv-1'')
       (diskOf 255 [([''var'', ''data'', ''zk''], Dir 493), ([''var'', ''data''], Dir 493),
                    ([''var''], Dir 493), ([], Dir 493)])
     = (None, diskOf 255 [([''var'', ''data'', ''zk''], Dir 493), ([''var'', ''data''], Dir 493),
                          ([''var''], Dir 493), ([], Dir 493)])
   \<and> Stat (diskOf 255 [([''var''], Dir 493), ([], Dir 493)])
         (resolve (diskOf 255 [([''var''], Dir 493), ([], Dir 493)]) ''/var/x'') = Inl ENOENT
   \<and> Delete nodeA (volumeAt ''node-a'' ''/var/x'') (diskOf 255 [([''var''], Dir 493), ([], Dir 493)])
     = (None, diskOf 255 [([''var''], Dir 493), ([], Dir 493)])
   \<and> RemoveAll (diskOf 255 [([''var'', ''x''], Dir 493), ([''var''], Dir 365), ([], Dir 493)]) ''/var/x''
     = (Some (PathError ''unlinkat'' [''var'', ''x''] EACCES),
        diskOf 255 [([''var'', ''x''], Dir 493), ([''var''], Dir 365), ([], Dir 493)])
   \<and> Delete nodeA (volumeAt ''node-a'' ''/var/x'')
       (diskOf 255 [([''var'', ''x''], Dir 493), ([''var''], Dir 365), ([], Dir 493)])
     = (Some (PathError ''unlinkat'' [''var'', ''x''] EACCES),
        diskOf 255 [([''var'', ''x''], Dir 493), ([''var''], Dir 365), ([], Dir 493)])"
proof -
  let ?full = "diskOf 255 [([''var'', ''data'', ''zk'', ''default-pvc1-pv-1''], Dir 493),
                    ([''var'', ''data'', ''zk''], Dir 493), ([''var'', ''data''], Dir 493),
                    ([''var''], Dir 493), ([], Dir 493)]"
  let ?gone = "diskOf 255 [([''var'', ''data'', ''zk''], Dir 493), ([''var'', ''data''], Dir 493),
                    ([''var''], Dir 493), ([], Dir 493)]"
  let ?small = "diskOf 255 [([''var''], Dir 493), ([], Dir 493)]"
  let ?locked = "diskOf 255 [([''var'', ''x''], Dir 493), ([''var''], Dir 365), ([], Dir 493)]"
  let ?vol = "volumeAt ''node-a'' ''/var/data/zk/default-pvc1-pv-1''"
  let ?volx = "volumeAt ''node-a'' ''/var/x''"
  have first: "Delete nodeA ?vol ?full = (None, ?gone)"
    by (simp add: Delete_def volumeAt_def nodeA_def disk_eval)
  from delete_idempotent [of nodeA ?vol ?full ?gone] first
  have second: "Delete nodeA ?vol ?gone = (None, ?gone)"
    by blast
  have own: "Annotations ?volx ''hostPathProvisionerIdentity'' = Some (identity nodeA)"
    "Annotations ?volx ''hostpath'' = Some ''/var/x''"
    by (simp_all add: volumeAt_def nodeA_def)
  have absent: "\<not> endsWithDot ''/var/x''" "Stat ?small (resolve ?small ''/var/x'') = Inl ENOENT"
    by (simp_all add: disk_eval)
  from delete_idempotent [of nodeA ?volx ?small _ "''/var/x''"] own absent
  have third: "Delete nodeA ?volx ?small = (None, ?small)"
    by blast
  have rm: "RemoveAll ?locked ''/var/x'' = (Some (PathError ''unlinkat'' [''var'', ''x''] EACCES), ?locked)"
    by (simp add: disk_eval)
  from delete_idempotent [of nodeA ?volx ?locked _ "''/var/x''"] own rm
  have fourth: "Delete nodeA ?volx ?locked = (Some (PathError ''unlinkat'' [''var'', ''x''] EACCES), ?locked)"
    by blast
  from first second absent(2) third rm fourth show ?thesis by blast
qed

subsection \<open>Provision\<close>

text \<open>
  Claim C7: the volume of a successful \<open>Provision\<close> carries the requested storage
  quantity of the claim as its capacity (the zero quantity when the claim requests none),
  the access modes of the claim, the reclaim policy of the storage class, the computed
  path, the identity of the instance under \<^verbatim>\<open>hostPathProvisionerIdentity\<close> and the
  path under \<open>hostpath\<close>; and that path is a directory afterwards.
\<close>

theorem provision_descriptor:
  assumes "Provision v p options fs = (Inr pv, fs')"
  shows "Capacity pv ResourceStorage
           = Some (case Requests (PVC options) ResourceStorage of None \<Rightarrow> 0 | Some quantity \<Rightarrow> quantity)
    \<and> PV_AccessModes pv = AccessModes (PVC options)
    \<and> ReclaimPolicy (StorageClass options) = Some (PersistentVolumeReclaimPolicy pv)
    \<and> HostPath pv = provisionPath p options
    \<and> Annotations pv ''hostPathProvisionerIdentity'' = Some (identity p)
    \<and> Annotations pv ''hostpath'' = Some (HostPath pv)
    \<and> (\<exists>m. Stat fs' (resolve fs' (HostPath pv)) = Inr (Dir m))"
proof -
  note ok = Provision_success [OF assms]
  from MkdirAll_Stat [OF ok(1)] obtain m where
    "Stat fs' (resolve fs' (provisionPath p options)) = Inr (Dir m)" ..
  moreover have "Capacity pv ResourceStorage
       = Some (case Requests (PVC options) ResourceStorage of None \<Rightarrow> 0 | Some quantity \<Rightarrow> quantity)"
    by (subst ok(3)) simp
  moreover have "PV_AccessModes pv = AccessModes (PVC options)"
    by (subst ok(3)) simp
  moreover have "HostPath pv = provisionPath p options"
    by (subst ok(3)) simp
  moreover have "Annotations pv ''hostPathProvisionerIdentity'' = Some (identity p)"
    by (subst ok(3)) simp
  moreover have "Annotations pv ''hostpath'' = Some (provisionPath p options)"
    by (subst ok(3)) simp
  ultimately show ?thesis
    using ok(2) by simp
qed

theorem provision_descriptor_witness:
  "Provision Example nodeA (claimFor ''default'' ''pvc1'' (appLabel zk) ''pv-1'')
       (diskOf 255 [([], Dir 493)])
     = (Inr (volumeAt ''node-a'' ''/var/data/zk/default-pvc1-pv-1''),
        diskOf 255 [([''var'', ''data'', ''zk'', ''default-pvc1-pv-1''], Dir 493),
                    ([''var'', ''data'', ''zk''], Dir 493), ([''var'', ''data''], Dir 493),
                    ([''var''], Dir 493), ([], Dir 493)])
   \<and> Capacity (volumeAt ''node-a'' ''/var/data/zk/default-pvc1-pv-1'') ResourceStorage
       = Some 1073741824
   \<and> PV_AccessModes (volumeAt ''node-a'' ''/var/data/zk/default-pvc1-pv-1'') = [''ReadWriteOnce'']
   \<and> PersistentVolumeReclaimPolicy (volumeAt ''node-a'' ''/var/data/zk/default-pvc1-pv-1'') = ''Delete''
   \<and> HostPath (volumeAt ''node-a'' ''/var/data/zk/default-pvc1-pv-1'')
       = ''/var/data/zk/default-pvc1-pv-1''
   \<and> Annotations (volumeAt ''node-a'' ''/var/data/zk/default-pvc1-pv-1'') ''hostPathProvisionerIdentity''
       = Some ''node-a''
   \<and> Annotations (volumeAt ''node-a'' ''/var/data/zk/default-pvc1-pv-1'') ''hostpath''
       = Some ''/var/data/zk/default-pvc1-pv-1''"
  using provision_descriptor [OF Provision_example] Provision_example
  by (simp add: claimFor_def nodeA_def volumeAt_def)

text \<open>
  Claim C8: \<open>Provision\<close> is idempotent. A second call with the same claim context and
  volume name after a successful one succeeds, returns the same volume and changes
  nothing; and a directory that is already at the target path is no error.
\<close>

theorem provision_idempotent:
  "(Provision v p options fs = (Inr pv, fs') \<longrightarrow> Provision v p options fs' = (Inr pv, fs'))
   \<and> (Stat fs (resolve fs (provisionPath p options)) = Inr (Dir m)
        \<and> ReclaimPolicy (StorageClass options) = Some policy \<longrightarrow>
      (\<exists>pv. Provision v p options fs = (Inr pv, fs) \<and> HostPath pv = provisionPath p options))"
proof (intro conjI impI)
  assume a: "Provision v p options fs = (Inr pv, fs')"
  note ok = Provision_success [OF a]
  from MkdirAll_again [OF ok(1)]
  have "MkdirAll fs' (provisionPath p options) (dirPerm v) = (None, fs')" .
  then have "Provision v p options fs'
      = (Inr \<lparr> PV_Name = PVName options,
                Annotations = [''hostPathProvisionerIdentity'' \<mapsto> identity p,
                               ''hostpath'' \<mapsto> provisionPath p options],
                PersistentVolumeReclaimPolicy = PersistentVolumeReclaimPolicy pv,
                PV_AccessModes = AccessModes (PVC options),
                Capacity = [ResourceStorage \<mapsto>
                              (case Requests (PVC options) ResourceStorage of
                                 None \<Rightarrow> 0 | Some quantity \<Rightarrow> quantity)],
                HostPath = provisionPath p options \<rparr>, fs')"
    using ok(2) by (simp add: Provision_def Let_def)
  with ok(3) show "Provision v p options fs' = (Inr pv, fs')"
    by simp
next
  assume "Stat fs (resolve fs (provisionPath p options)) = Inr (Dir m)
        \<and> ReclaimPolicy (StorageClass options) = Some policy"
  then have "MkdirAll fs (provisionPath p options) (dirPerm v) = (None, fs)"
    and "ReclaimPolicy (StorageClass options) = Some policy"
    using MkdirAll_existing [OF provisionPath_nonempty] by auto
  then show "\<exists>pv. Provision v p options fs = (Inr pv, fs) \<and> HostPath pv = provisionPath p options"
    by (simp add: Provision_def Let_def)
qed

theorem provision_idempotent_witness:
  "Provision Example nodeA (claimFor ''default'' ''pvc1'' (appLabel zk) ''pv-1'')
       (diskOf 255 [([], Dir 493)])
     = (Inr (volumeAt ''node-a'' ''/var/data/zk/default-pvc1-pv-1''),
        diskOf 255 [([''var'', ''data'', ''zk'', ''default-pvc1-pv-1''], Dir 493),
                    ([''var'', ''data'', ''zk''], Dir 493), ([''var'', ''data''], Dir 493),
                    ([''var''], Dir 493), ([], Dir 493)])
   \<and> Provision Example nodeA (claimFor ''default'' ''pvc1'' (appLabel zk) ''pv-1'')
       (diskOf 255 [([''var'', ''data'', ''zk'', ''default-pvc1-pv-1''], Dir 493),
                    ([''var'', ''data'', ''zk''], Dir 493), ([''var'', ''data''], Dir 493),
                    ([''var''], Dir 493), ([], Dir 493)])
     = (Inr (volumeAt ''node-a'' ''/var/data/zk/default-pvc1-pv-1''),
        diskOf 255 [([''var'', ''data'', ''zk'', ''default-pvc1-pv-1''], Dir 493),
                    ([''var'', ''data'', ''zk''], Dir 493), ([''var'', ''data''], Dir 493),
                    ([''var''], Dir 493), ([], Dir 493)])
   \<and> Stat (diskOf 255 [([''tmp'', ''nirmata-hostpath-provisioner'', ''default-pvc1-pv-1''], Dir 448),
                       ([''tmp'', ''nirmata-hostpath-provisioner''], Dir 493),
                       ([''tmp''], Dir 493), ([], Dir 493)])
        [''tmp'', ''nirmata-hostpath-provisioner'', ''default-pvc1-pv-1''] = Inr (Dir 448)
   \<and> fst (Provision Part000 nodeA (claimFor ''default'' ''pvc1'' (appLabel ''redis'') ''pv-1'')
       (diskOf 255 [([''tmp'', ''nirmata-hostpath-provisioner'', ''default-pvc1-pv-1''], Dir 448),
                    ([''tmp'', ''nirmata-hostpath-provisioner''], Dir 493),
                    ([''tmp''], Dir 493), ([], Dir 493)]))
     = Inr ((volumeAt ''node-a'' ''/tmp/nirmata-hostpath-provisioner/default-pvc1-pv-1''))
   \<and> snd (Provision Part000 nodeA (claimFor ''default'' ''pvc1'' (appLabel ''redis'') ''pv-1'')
       (diskOf 255 [([''tmp'', ''nirmata-hostpath-provisioner'', ''default-pvc1-pv-1''], Dir 448),
                    ([''tmp'', ''nirmata-hostpath-provisioner''], Dir 493),
                    ([''tmp''], Dir 493), ([], Dir 493)]))
     = diskOf 255 [([''tmp'', ''nirmata-hostpath-provisioner'', ''default-pvc1-pv-1''], Dir 448),
                    ([''tmp'', ''nirmata-hostpath-provisioner''], Dir 493),
                    ([''tmp''], Dir 493), ([], Dir 493)]"
proof -
  let ?claim = "claimFor ''default'' ''pvc1'' (appLabel zk) ''pv-1''"
  let ?other = "claimFor ''default'' ''pvc1'' (appLabel ''redis'') ''pv-1''"
  let ?full = "diskOf 255 [([''var'', ''data'', ''zk'', ''default-pvc1-pv-1''], Dir 493),
                    ([''var'', ''data'', ''zk''], Dir 493), ([''var'', ''data''], Dir 493),
                    ([''var''], Dir 493), ([], Dir 493)]"
  let ?old = "diskOf 255 [([''tmp'', ''nirmata-hostpath-provisioner'', ''default-pvc1-pv-1''], Dir 448),
                    ([''tmp'', ''nirmata-hostpath-provisioner''], Dir 493),
                    ([''tmp''], Dir 493), ([], Dir 493)]"
  from provision_idempotent [of Example nodeA ?claim "diskOf 255 [([], Dir 493)]"
         "volumeAt ''node-a'' ''/var/data/zk/default-pvc1-pv-1''" ?full] Provision_example
  have again: "Provision Example nodeA ?claim ?full
                 = (Inr (volumeAt ''node-a'' ''/var/data/zk/default-pvc1-pv-1''), ?full)"
    by blast
  have there: "Stat ?old [''tmp'', ''nirmata-hostpath-provisioner'', ''default-pvc1-pv-1''] = Inr (Dir 448)"
    by (simp add: disk_eval)
  have path: "provisionPath nodeA ?other = ''/tmp/nirmata-hostpath-provisioner/default-pvc1-pv-1''"
    by (simp add: path_eval)
  have res: "resolve ?old ''/tmp/nirmata-hostpath-provisioner/default-pvc1-pv-1''
               = [''tmp'', ''nirmata-hostpath-provisioner'', ''default-pvc1-pv-1'']"
    by (simp add: disk_eval)
  have pol: "ReclaimPolicy (StorageClass ?other) = Some ''Delete''"
    by (simp add: claimFor_def)
  have pre: "Stat ?old (resolve ?old (provisionPath nodeA ?other)) = Inr (Dir 448)
               \<and> ReclaimPolicy (StorageClass ?other) = Some ''Delete''"
    using there pol by (simp only: path res simp_thms)
  from provision_idempotent [of Part000 nodeA ?other ?old _ _ 448 "''Delete''",
          THEN conjunct2, THEN mp, OF pre]
  obtain pv where pv: "Provision Part000 nodeA ?other ?old = (Inr pv, ?old)"
    by blast
  have "PersistentVolumeReclaimPolicy pv = ''Delete''"
    using Provision_success(2) [OF pv] pol by simp
  then have "pv = volumeAt ''node-a'' ''/tmp/nirmata-hostpath-provisioner/default-pvc1-pv-1''"
    apply (subst Provision_success(3) [OF pv])
    apply (simp only: path)
    apply (simp add: volumeAt_def claimFor_def nodeA_def)
    done
  with pv have "fst (Provision Part000 nodeA ?other ?old) = Inr (volumeAt ''node-a'' ''/tmp/nirmata-hostpath-provisioner/default-pvc1-pv-1'')"
    "snd (Provision Part000 nodeA ?other ?old) = ?old"
    by simp_all
  with Provision_example again there show ?thesis by blast
qed

text \<open>
  Claim C9: when the recursive creation of the directory fails, \<open>Provision\<close> returns
  that error as it is and no volume, and the filesystem is left as the failed creation
  left it: nothing that existed or was created on the way is removed.
\<close>

theorem provision_mkdir_failure:
  assumes "MkdirAll fs (provisionPath p options) (dirPerm v) = (Some err, fs')"
  shows "Provision v p options fs = (Inl err, fs')
         \<and> (\<exists>new. entries fs' = new @ entries fs)"
  using assms MkdirAll_entries [OF assms] by (simp add: Provision_def Let_def)

theorem provision_mkdir_failure_witness:
  "MkdirAll (diskOf 8 [([], Dir 493)])
       (provisionPath nodeA (claimFor ''default'' ''pvc1'' (appLabel zk) ''pv-1'')) (dirPerm Example)
     = (Some (PathError ''mkdir'' [''var'', ''data'', ''zk'', ''default-pvc1-pv-1''] ENAMETOOLONG),
        diskOf 8 [([''var'', ''data'', ''zk''], Dir 493), ([''var'', ''data''], Dir 493),
                  ([''var''], Dir 493), ([], Dir 493)])
   \<and> Provision Example nodeA (claimFor ''default'' ''pvc1'' (appLabel zk) ''pv-1'')
       (diskOf 8 [([], Dir 493)])
     = (Inl (PathError ''mkdir'' [''var'', ''data'', ''zk'', ''default-pvc1-pv-1''] ENAMETOOLONG),
        diskOf 8 [([''var'', ''data'', ''zk''], Dir 493), ([''var'', ''data''], Dir 493),
                  ([''var''], Dir 493), ([], Dir 493)])"
proof -
  have mk: "MkdirAll (diskOf 8 [([], Dir 493)])
       (provisionPath nodeA (claimFor ''default'' ''pvc1'' (appLabel zk) ''pv-1'')) (dirPerm Example)
     = (Some (PathError ''mkdir'' [''var'', ''data'', ''zk'', ''default-pvc1-pv-1''] ENAMETOOLONG),
        diskOf 8 [([''var'', ''data'', ''zk''], Dir 493), ([''var'', ''data''], Dir 493),
                  ([''var''], Dir 493), ([], Dir 493)])"
    by (simp add: path_eval disk_eval)
  from provision_mkdir_failure [OF mk] mk show ?thesis by blast
qed

text \<open>
  Claim C10: when the storage class supplies a reclaim policy, \<open>Provision\<close> never ends
  in the dereference of \<open>nil\<close>: it succeeds with that policy whenever the directory
  can be created, and its only errors are those of the creation of the directory.
\<close>

theorem provision_reclaim_policy:
  assumes "ReclaimPolicy (StorageClass options) = Some policy"
  shows "fst (Provision v p options fs) \<noteq> Inl NilPointerDereference
    \<and> (fst (MkdirAll fs (provisionPath p options) (dirPerm v)) = None \<longrightarrow>
         (\<exists>pv. fst (Provision v p options fs) = Inr pv \<and> PersistentVolumeReclaimPolicy pv = policy))
    \<and> (\<forall>err. fst (Provision v p options fs) = Inl err \<longrightarrow>
         fst (MkdirAll fs (provisionPath p options) (dirPerm v)) = Some err)"
proof -
  obtain r fs' where mk: "MkdirAll fs (provisionPath p options) (dirPerm v) = (r, fs')"
    by (cases "MkdirAll fs (provisionPath p options) (dirPerm v)") auto
  show ?thesis
  proof (cases r)
    case None
    with mk assms show ?thesis
      by (simp add: Provision_def Let_def)
  next
    case (Some err)
    with mk MkdirAll_error [of fs "provisionPath p options" "dirPerm v" err fs']
    have "err \<noteq> NilPointerDereference" by auto
    with Some mk show ?thesis
      by (simp add: Provision_def Let_def)
  qed
qed

theorem provision_reclaim_policy_witness:
  "ReclaimPolicy (StorageClass (claimFor ''default'' ''pvc1'' (appLabel zk) ''pv-1'')) = Some ''Delete''
   \<and> fst (MkdirAll (diskOf 255 [([], Dir 493)])
            (provisionPath nodeA (claimFor ''default'' ''pvc1'' (appLabel zk) ''pv-1''))
            (dirPerm Example)) = None
   \<and> fst (Provision Example nodeA (claimFor ''default'' ''pvc1'' (appLabel zk) ''pv-1'')
            (diskOf 255 [([], Dir 493)]))
       = Inr (volumeAt ''node-a'' ''/var/data/zk/default-pvc1-pv-1'')
   \<and> fst (Provision Example nodeA (claimFor ''default'' ''pvc1'' (appLabel zk) ''pv-1'')
            (diskOf 255 [([], Dir 493)])) \<noteq> Inl NilPointerDereference
   \<and> fst (Provision Example nodeA (claimFor ''default'' ''pvc1'' (appLabel zk) ''pv-1'')
            (diskOf 255 [([], Dir 365)]))
       = Inl (PathError ''mkdir'' [''var''] EACCES)
   \<and> fst (MkdirAll (diskOf 255 [([], Dir 365)])
            (provisionPath nodeA (claimFor ''default'' ''pvc1'' (appLabel zk) ''pv-1''))
            (dirPerm Example)) = Some (PathError ''mkdir'' [''var''] EACCES)"
proof -
  let ?claim = "claimFor ''default'' ''pvc1'' (appLabel zk) ''pv-1''"
  have pol: "ReclaimPolicy (StorageClass ?claim) = Some ''Delete''"
    by (simp add: claimFor_def)
  have mk: "fst (MkdirAll (diskOf 255 [([], Dir 493)]) (provisionPath nodeA ?claim) (dirPerm Example)) = None"
    by (simp add: path_eval disk_eval)
  have run: "fst (Provision Example nodeA ?claim (diskOf 255 [([], Dir 493)]))
               = Inr (volumeAt ''node-a'' ''/var/data/zk/default-pvc1-pv-1'')"
    by (simp add: Provision_def path_eval disk_eval volumeAt_def)
  have bad: "fst (Provision Example nodeA ?claim (diskOf 255 [([], Dir 365)]))
               = Inl (PathError ''mkdir'' [''var''] EACCES)"
    by (simp add: Provision_def path_eval disk_eval)
  note inst = provision_reclaim_policy [OF pol, of Example nodeA]
  from inst [of "diskOf 255 [([], Dir 493)]"]
  have a: "fst (Provision Example nodeA ?claim (diskOf 255 [([], Dir 493)])) \<noteq> Inl NilPointerDereference"
    by blast
  from inst [of "diskOf 255 [([], Dir 365)]"] bad
  have b: "fst (MkdirAll (diskOf 255 [([], Dir 365)]) (provisionPath nodeA ?claim) (dirPerm Example))
             = Some (PathError ''mkdir'' [''var''] EACCES)"
    by blast
  from pol mk run a bad b show ?thesis by blast
qed

end
